theory Spec2Isabelle
  imports Main "HOL-Library.Sublist"
begin

section \<open>Strings\<close>

text \<open>
  A JavaScript string is a sequence of UTF-16 code units. The model holds the code units
  below 256 (ISO-8859-1) as \<^typ>\<open>char\<close>, so a text is a \<^typ>\<open>string\<close>. On this
  range \<open>String.prototype.toLowerCase\<close> works unit by unit: \<open>A-Z\<close> and the Latin-1
  capitals \<open>0xC0-0xDE\<close> (without the multiplication sign \<open>0xD7\<close>) move up by 32, every
  other unit stays.

  One unit beyond this range occurs in the tables of the program, the arrow U+2192 of the
  disk drive story. The unit \<open>0x1A\<close>, which occurs nowhere in the program, stands for
  it: like the arrow it is no letter, no digit, no white space, no line terminator and no
  word unit, so every function below treats the two alike, and the lengths are those of
  the program. Texts with another unit above 255, or with a unit \<open>0x1A\<close> of their own,
  are outside the model.
\<close>

definition lowerUnit :: "char \<Rightarrow> char" where
  "lowerUnit c =
     (let n = (of_char c :: nat)
      in if (65 \<le> n \<and> n \<le> 90) \<or> (192 \<le> n \<and> n \<le> 222 \<and> n \<noteq> 215)
         then char_of (n + 32) else c)"

definition toLowerCase :: "string \<Rightarrow> string" where
  "toLowerCase s = map lowerUnit s"

text \<open>\<open>x.includes(y)\<close>: some position of \<open>x\<close> starts a copy of \<open>y\<close>.\<close>

fun startsWith :: "string \<Rightarrow> string \<Rightarrow> bool" where
  "startsWith xs [] = True"
| "startsWith [] (y # ys) = False"
| "startsWith (x # xs) (y # ys) = (x = y \<and> startsWith xs ys)"

fun includesStr :: "string \<Rightarrow> string \<Rightarrow> bool" where
  "includesStr [] ys = (ys = [])"
| "includesStr (x # xs) ys = (startsWith (x # xs) ys \<or> includesStr xs ys)"

text \<open>\<open>x.slice(0, n)\<close> for \<open>n \<ge> 0\<close>.\<close>

definition slice0 :: "string \<Rightarrow> nat \<Rightarrow> string" where
  "slice0 s n = take n s"

text \<open>\<open>xs.join(sep)\<close>.\<close>

fun join :: "string list \<Rightarrow> string \<Rightarrow> string" where
  "join [] sep = []"
| "join [x] sep = x"
| "join (x # y # ys) sep = x @ sep @ join (y # ys) sep"

section \<open>Regular expressions of the fidelity check\<close>

text \<open>
  The fragment of ECMAScript regular expressions that \<open>fidelity-check.ts\<close> uses, with
  the backtracking order of the language: \<open>ends r (b, s)\<close> lists, in the order in which
  the matcher tries them, the states reachable by matching \<open>r\<close> from the position that
  has the text \<open>rev b\<close> before it and \<open>s\<close> after it.

  With the \<open>i\<close> flag two units match when their canonical forms are equal. The patterns
  hold ASCII only and the canonical form of a unit beyond ASCII is never an ASCII unit, so
  capitalising the ASCII letters is the whole rule; on a pattern without letters it
  changes nothing.
\<close>

definition canon :: "char \<Rightarrow> char" where
  "canon c = (let n = (of_char c :: nat) in if 97 \<le> n \<and> n \<le> 122 then char_of (n - 32) else c)"

definition isWordChar :: "char \<Rightarrow> bool" where
  "isWordChar c =
     (let n = (of_char c :: nat)
      in (48 \<le> n \<and> n \<le> 57) \<or> (65 \<le> n \<and> n \<le> 90) \<or> n = 95 \<or> (97 \<le> n \<and> n \<le> 122))"

definition isSpace :: "char \<Rightarrow> bool" where
  "isSpace c = (let n = (of_char c :: nat) in (9 \<le> n \<and> n \<le> 13) \<or> n = 32 \<or> n = 160)"

definition isDigit :: "char \<Rightarrow> bool" where
  "isDigit c = (let n = (of_char c :: nat) in 48 \<le> n \<and> n \<le> 57)"

datatype rx =
    Atom "char \<Rightarrow> bool"
  | Lit string
  | Seq rx rx
  | Alt rx rx
  | Opt rx
  | Star rx
  | WordB
  | NotBehind rx
  | NotAhead rx

type_synonym pos = "string \<times> string"

text \<open>A literal, unit by unit, ignoring the case of ASCII letters.\<close>

fun matchLit :: "string \<Rightarrow> string \<Rightarrow> string \<Rightarrow> pos list" where
  "matchLit [] b s = [(b, s)]"
| "matchLit (c # w) b [] = []"
| "matchLit (c # w) b (x # s) = (if canon x = canon c then matchLit w (x # b) s else [])"

text \<open>
  Greedy repetition: one more round first, then stop. A round that consumes nothing is
  rejected, as the RepeatMatcher of the language does. Each round shortens the rest of
  the text, so as many rounds as the rest is long are all there can be.
\<close>

primrec star_from :: "nat \<Rightarrow> (pos \<Rightarrow> pos list) \<Rightarrow> pos \<Rightarrow> pos list" where
  "star_from 0 step st = [st]"
| "star_from (Suc n) step st =
     concat (map (\<lambda>st'. if length (snd st') < length (snd st) then star_from n step st' else [])
                 (step st)) @ [st]"

definition wordAt :: "string \<Rightarrow> bool" where
  "wordAt s = (case s of [] \<Rightarrow> False | c # _ \<Rightarrow> isWordChar c)"

text \<open>
  The lookbehind \<open>(?<!r)\<close> at a position with \<open>n\<close> units after it: \<open>r\<close> must not match
  from any earlier position up to exactly this one.
\<close>

fun endsHere :: "(pos \<Rightarrow> pos list) \<Rightarrow> nat \<Rightarrow> string \<Rightarrow> string \<Rightarrow> bool" where
  "endsHere f n [] s = list_ex (\<lambda>st'. length (snd st') = n) (f ([], s))"
| "endsHere f n (c # b) s =
     (list_ex (\<lambda>st'. length (snd st') = n) (f (c # b, s)) \<or> endsHere f n b (c # s))"

primrec ends :: "rx \<Rightarrow> pos \<Rightarrow> pos list" where
  "ends (Atom p) = (\<lambda>st. case snd st of [] \<Rightarrow> []
                             | c # s' \<Rightarrow> if p c then [(c # fst st, s')] else [])"
| "ends (Lit w) = (\<lambda>st. matchLit w (fst st) (snd st))"
| "ends (Seq r1 r2) = (\<lambda>st. concat (map (ends r2) (ends r1 st)))"
| "ends (Alt r1 r2) = (\<lambda>st. ends r1 st @ ends r2 st)"
| "ends (Opt r) = (\<lambda>st. filter (\<lambda>st'. length (snd st') < length (snd st)) (ends r st) @ [st])"
| "ends (Star r) = (\<lambda>st. star_from (length (snd st)) (ends r) st)"
| "ends WordB = (\<lambda>st. if wordAt (fst st) \<noteq> wordAt (snd st) then [st] else [])"
| "ends (NotBehind r) =
     (\<lambda>st. if endsHere (ends r) (length (snd st)) (fst st) (snd st) then [] else [st])"
| "ends (NotAhead r) = (\<lambda>st. if ends r st = [] then [st] else [])"

text \<open>
  \<open>text.match(pattern)\<close> and \<open>pattern.test(text)\<close> for a pattern without the \<open>g\<close> flag:
  the leftmost position where the pattern matches, and there the first match in
  backtracking order; \<open>match[0]\<close> is the matched part of the text.
\<close>

definition matchAt :: "rx \<Rightarrow> pos \<Rightarrow> string option" where
  "matchAt r st = (case ends r st of [] \<Rightarrow> None
                   | st' # _ \<Rightarrow> Some (take (length (snd st) - length (snd st')) (snd st)))"

fun scanFrom :: "rx \<Rightarrow> string \<Rightarrow> string \<Rightarrow> string option" where
  "scanFrom r b [] = matchAt r (b, [])"
| "scanFrom r b (c # s) =
     (case matchAt r (b, c # s) of Some m \<Rightarrow> Some m | None \<Rightarrow> scanFrom r (c # b) s)"

definition rx_match :: "string \<Rightarrow> rx \<Rightarrow> string option" where
  "rx_match text r = scanFrom r [] text"

definition rx_test :: "rx \<Rightarrow> string \<Rightarrow> bool" where
  "rx_test r text = (rx_match text r \<noteq> None)"

subsection \<open>Pattern syntax\<close>

fun seqs :: "rx list \<Rightarrow> rx" where
  "seqs [] = Lit []"
| "seqs [r] = r"
| "seqs (r # r' # rs) = Seq r (seqs (r' # rs))"

fun alts :: "rx list \<Rightarrow> rx" where
  "alts [] = Lit []"
| "alts [r] = r"
| "alts (r # r' # rs) = Alt r (alts (r' # rs))"

definition Plus :: "rx \<Rightarrow> rx" where
  "Plus r = Seq r (Star r)"

text \<open>\<open>[- ]\<close>, \<open>.\<close> (no line terminator), \<open>[^.]\<close>, \<open>\s\<close>, \<open>[,\s]\<close> and \<open>\d\<close>.\<close>

definition dashSpace :: rx where
  "dashSpace = Atom (\<lambda>x. x = CHR ''-'' \<or> x = CHR '' '')"

definition anyChar :: rx where
  "anyChar = Atom (\<lambda>x. x \<noteq> CHR 0x0A \<and> x \<noteq> CHR 0x0D)"

definition notDot :: rx where
  "notDot = Atom (\<lambda>x. x \<noteq> CHR ''.'')"

definition space :: rx where
  "space = Atom isSpace"

definition commaSpace :: rx where
  "commaSpace = Atom (\<lambda>x. x = CHR '','' \<or> isSpace x)"

definition digit :: rx where
  "digit = Atom isDigit"

text \<open>A pattern between two \<open>\b\<close>.\<close>

definition word :: "rx \<Rightarrow> rx" where
  "word r = Seq WordB (Seq r WordB)"

section \<open>Fidelity markers (\<open>fidelity-check.ts\<close>)\<close>

definition POSITIVE_PATTERNS_frameworkReference :: "rx list" where
  "POSITIVE_PATTERNS_frameworkReference =
    [seqs [Lit ''job'', Opt (Lit ''s''), dashSpace, Lit ''to'', dashSpace, Lit ''be'', dashSpace,
           Lit ''done''],
     Lit ''jtbd'',
     Lit ''disruption'',
     Lit ''disruptive'',
     Lit ''sustaining'',
     seqs [Lit ''capabilities'', Plus commaSpace, Lit ''processes'', Plus commaSpace,
           Opt (Seq (Lit ''and'') (Plus space)), Lit ''priorities''],
     Lit ''cpp'',
     Lit ''resource dependence'']"

definition POSITIVE_PATTERNS_jtbdQuestion :: "rx list" where
  "POSITIVE_PATTERNS_jtbdQuestion =
    [Lit ''what job'',
     seqs [Lit ''hiring'', Star anyChar, alts [Lit ''product'', Lit ''solution'', Lit ''this'']],
     seqs [Lit ''functional'', Star anyChar, Lit ''emotional'', Star anyChar, Lit ''social''],
     Lit ''circumstance'',
     Lit ''what are they firing'']"

definition POSITIVE_PATTERNS_humility :: "rx list" where
  "POSITIVE_PATTERNS_humility =
    [seqs [Lit ''theory '', Opt (alts [Lit ''would '', Lit ''might '']),
           alts [Lit ''suggest'', Lit ''predict'']],
     seqs [Lit ''I'', Opt (Lit [CHR 0x27]), Lit ''ve seen this pattern''],
     Lit ''help me understand'',
     seqs [Lit ''the question '', alts [Lit ''is'', Lit ''might be'']],
     Lit ''appropriate uncertainty'',
     Lit ''might be different'',
     Lit ''depends on'']"

definition POSITIVE_PATTERNS_caseStudy :: "rx list" where
  "POSITIVE_PATTERNS_caseStudy =
    [seqs [Lit ''mini'', Opt dashSpace, Lit ''mill'', Opt (Lit ''s'')],
     Lit ''steel'',
     Lit ''disk drive'',
     Lit ''milkshake'',
     Lit ''honda'',
     Lit ''intel'',
     Lit ''microprocessor'']"

definition POSITIVE_PATTERNS_constraints :: "rx list" where
  "POSITIVE_PATTERNS_constraints =
    [Lit ''resource provider'',
     Lit ''business model'',
     seqs [Lit ''priorit'', alts [Lit ''y'', Lit ''ies'']],
     seqs [Lit ''process'', Opt (Lit ''es'')],
     Lit ''what would need to change'']"

definition POSITIVE_PATTERNS_story :: "rx list" where
  "POSITIVE_PATTERNS_story =
    [seqs [Lit ''let me '', alts [Lit ''tell you'', Lit ''share'']],
     Lit ''story'',
     Lit ''example'',
     seqs [Lit ''I'', Opt (Lit [CHR 0x27]), Lit ''m reminded of''],
     seqs [Lit ''consider '', alts [Lit ''the case'', Lit ''how'']]]"

definition NEGATIVE_PATTERNS_overconfidence :: "rx list" where
  "NEGATIVE_PATTERNS_overconfidence =
    [word (Lit ''will definitely''),
     word (Lit ''will certainly''),
     word (Lit ''guaranteed''),
     word (Lit ''will always''),
     word (Lit ''no doubt''),
     word (Lit ''100%'')]"

definition NEGATIVE_PATTERNS_dismissive :: "rx list" where
  "NEGATIVE_PATTERNS_dismissive =
    [seqs [NotBehind (Seq (Lit ''not that'') (Star notDot)), WordB, Lit ''stupid'', WordB,
           NotAhead (Seq (Star notDot) (Lit ''rational''))],
     word (Lit ''obviously wrong''),
     word (Lit ''terrible idea''),
     word (seqs [Lit ''that'', Opt (Lit [CHR 0x27]), Lit ''s '', alts [Lit ''dumb'', Lit ''idiotic'']]),
     word (seqs [Lit ''you'', Opt (Lit [CHR 0x27]), Lit ''re wrong''])]"

definition NEGATIVE_PATTERNS_generic :: "rx list" where
  "NEGATIVE_PATTERNS_generic =
    [word (Lit ''just focus on execution''),
     word (seqs [Lit ''here'', Opt (Lit [CHR 0x27]), Lit ''s a '', Plus digit, dashSpace,
                 Lit ''step plan'']),
     word (Lit ''best practices say''),
     word (Lit ''industry standard'')]"

section \<open>Fidelity scoring\<close>

record CategoryResult =
  found :: bool
  matches :: "string list"

record Breakdown =
  frameworkReference :: CategoryResult
  jtbdQuestion :: CategoryResult
  humility :: CategoryResult
  caseStudy :: CategoryResult
  constraints :: CategoryResult
  story :: CategoryResult

record AntiPatterns =
  overconfidence :: CategoryResult
  dismissive :: CategoryResult
  generic :: CategoryResult

record FidelityScore =
  overall :: int
  breakdown :: Breakdown
  antiPatterns :: AntiPatterns
  mustIncludeScore :: int
  shouldIncludeScore :: int
  antiPatternPenalty :: int
  passed :: bool

definition isChristensenStupidContext :: "string \<Rightarrow> bool" where
  "isChristensenStupidContext text =
     (let empathyPattern = seqs [Lit ''not that'', Star notDot, Lit ''stupid'', Star notDot,
                                 Lit ''rational''];
          validationPattern = seqs [Lit ''dismissing'', Star notDot, Lit ''stupid'']
      in rx_test empathyPattern text \<or> rx_test validationPattern text)"

text \<open>
  The loop over the patterns; the optional \<open>category\<close> is \<open>None\<close> when the caller
  leaves it out. A pattern adds at most one excerpt, its first match.
\<close>

fun findMatches :: "string \<Rightarrow> rx list \<Rightarrow> string option \<Rightarrow> string list" where
  "findMatches text [] category = []"
| "findMatches text (pattern # patterns) category =
     (case rx_match text pattern of
        None \<Rightarrow> findMatches text patterns category
      | Some m0 \<Rightarrow>
          if category = Some ''dismissive'' \<and> includesStr (toLowerCase m0) ''stupid''
             \<and> isChristensenStupidContext text
          then findMatches text patterns category
          else m0 # findMatches text patterns category)"

text \<open>
  An entry of \<open>breakdown\<close> or \<open>antiPatterns\<close>: built with \<open>found: false\<close>, then set
  by the loop over the keys to \<open>matches.length > 0\<close>.
\<close>

definition categoryResult :: "string list \<Rightarrow> CategoryResult" where
  "categoryResult ms = \<lparr>found = (length ms > 0), matches = ms\<rparr>"

text \<open>\<open>items.filter(Boolean).length\<close>.\<close>

definition countTrue :: "bool list \<Rightarrow> int" where
  "countTrue items = int (length (filter id items))"

definition calculateFidelityScore :: "string \<Rightarrow> FidelityScore" where
  "calculateFidelityScore output =
     (let bd = \<lparr>frameworkReference =
                  categoryResult (findMatches output POSITIVE_PATTERNS_frameworkReference None),
                jtbdQuestion =
                  categoryResult (findMatches output POSITIVE_PATTERNS_jtbdQuestion None),
                humility = categoryResult (findMatches output POSITIVE_PATTERNS_humility None),
                caseStudy = categoryResult (findMatches output POSITIVE_PATTERNS_caseStudy None),
                constraints =
                  categoryResult (findMatches output POSITIVE_PATTERNS_constraints None),
                story = categoryResult (findMatches output POSITIVE_PATTERNS_story None)\<rparr>;
          ap = \<lparr>overconfidence =
                  categoryResult (findMatches output NEGATIVE_PATTERNS_overconfidence
                                    (Some ''overconfidence'')),
                dismissive =
                  categoryResult (findMatches output NEGATIVE_PATTERNS_dismissive
                                    (Some ''dismissive'')),
                generic = categoryResult (findMatches output NEGATIVE_PATTERNS_generic None)\<rparr>;
          mustIncludeItems =
            [found (frameworkReference bd), found (jtbdQuestion bd), found (humility bd),
             found (caseStudy bd), found (constraints bd)];
          mustInclude = countTrue mustIncludeItems;
          shouldIncludeItems =
            [found (story bd),
             length (matches (frameworkReference bd)) > 1,
             length (matches (humility bd)) > 1,
             length (matches (jtbdQuestion bd)) > 0 \<and> found (constraints bd)];
          shouldInclude = countTrue shouldIncludeItems;
          penalty = (if found (overconfidence ap) then 10 else 0)
                  + (if found (dismissive ap) then 15 else 0)
                  + (if found (generic ap) then 5 else 0);
          rawScore = mustInclude * 10 + shouldInclude * 10
      in \<lparr>overall = max 0 (min 100 (rawScore - penalty)),
          breakdown = bd,
          antiPatterns = ap,
          mustIncludeScore = mustInclude,
          shouldIncludeScore = shouldInclude,
          antiPatternPenalty = penalty,
          passed = (mustInclude \<ge> 4 \<and> \<not> found (dismissive ap) \<and> \<not> found (overconfidence ap))\<rparr>)"

section \<open>Case study patterns (\<open>disruption.ts\<close>)\<close>

definition newline :: string where
  "newline = [CHR 0x0A]"

text \<open>The arrow U+2192 of the disk drive story, one unit.\<close>

definition rightArrow :: string where
  "rightArrow = [CHR 0x1A]"

text \<open>\<open>s.trim()\<close>: white space and line terminators go from both ends.\<close>

definition trim :: "string \<Rightarrow> string" where
  "trim s = rev (dropWhile isSpace (rev (dropWhile isSpace s)))"

record CaseStudyPattern =
  name :: string
  pattern :: string
  story :: string
  signals :: "string list"
  lessonsForToday :: string

definition steel_minimills_story :: string where
  \<open>steel_minimills_story = trim (join
    ['''',
     ''Integrated steel mills (US Steel, Bethlehem) dominated the industry but'',
     ''had high fixed costs. Mini-mills (Nucor) entered making rebar - the'',
     ''lowest-margin product. Integrated mills were RELIEVED to exit rebar.'',
     '''',
     ''Mini-mills improved and moved to angle iron. Integrated mills were again'',
     ''relieved. Then structural steel. Then sheet steel. At each tier, the'',
     ''rational response for integrated mills was to retreat upmarket.'',
     '''',
     ''By the time mini-mills threatened their core products, integrated mills'',
     ''had neither the cost structure nor the capabilities to respond.'',
     ''    '']
    newline)\<close>

definition disk_drives_story :: string where
  \<open>disk_drives_story = trim (join
    ['''',
     ''Each generation of smaller disk drives was 'worse' by existing metrics'',
     ''(capacity, cost per megabyte) but enabled entirely new applications.'',
     '''',
     ''14" drives '' @ rightArrow @ '' mainframes'',
     ''8" drives '' @ rightArrow @ '' minicomputers'',
     ''5.25" drives '' @ rightArrow @ '' desktop PCs'',
     ''3.5" drives '' @ rightArrow @ '' laptops'',
     ''2.5" and smaller '' @ rightArrow @ '' portable devices'',
     '''',
     ''Each time, incumbents saw the new format as inferior. Their customers'',
     ''didn't want smaller drives with less capacity. But new customers in'',
     ''new applications valued portability, power efficiency, and form factor'',
     ''over raw capacity.'',
     ''    '']
    newline)\<close>

definition honda_motorcycles_story :: string where
  \<open>honda_motorcycles_story = trim (join
    ['''',
     ''Honda came to America in 1959 planning to sell large motorcycles to'',
     ''compete with Harley-Davidson. Sales were poor - Americans saw Japanese'',
     ''bikes as inferior for highway riding.'',
     '''',
     ''Honda executives rode small 50cc Supercubs around Los Angeles for'',
     ''personal errands. People kept asking where to buy them. Sears wanted'',
     ''to carry them. Honda initially resisted - these weren't 'real' motorcycles.'',
     '''',
     ''Eventually they recognized the market was teaching them their strategy.'',
     ''The Supercub created a new market of people who would never buy a'',
     ''Harley - and Honda built capabilities that later let them move upmarket.'',
     ''    '']
    newline)\<close>

definition intel_microprocessors_story :: string where
  \<open>intel_microprocessors_story = trim (join
    ['''',
     ''Intel dominated memory chips in the 1970s but faced brutal competition'',
     ''from Japanese manufacturers who had lower costs and higher quality.'',
     ''Andy Grove and Gordon Moore recognized memory was becoming a commodity.'',
     '''',
     ''Intel survived by migrating to microprocessors - not because they had'',
     ''unique resources (Japanese firms could acquire those) but because their'',
     ''PROCESSES for chip design and manufacturing transferred to processors.'',
     '''',
     ''The key insight: Resources are acquirable. Processes are developed'',
     ''over years and can't be bought. Intel's survival came from recognizing'',
     ''which of their capabilities (processes) were transferable.'',
     ''    '']
    newline)\<close>

definition steel_minimills :: CaseStudyPattern where
  \<open>steel_minimills =
    \<lparr>CaseStudyPattern.name = ''Steel Mini-Mills'',
     pattern = ''Low-end disruption with asymmetric motivation'',
     story = steel_minimills_story,
     signals =
       [''Incumbent has high fixed-cost structure'',
        ''Low-end segments are unattractive margin-wise'',
        ''Entrant has fundamentally different cost structure'',
        ''Entrant quality improves over time'',
        ''Incumbent 'rationally' cedes each tier''],
     lessonsForToday =
       ''Watch for entrants that incumbents are happy to ignore. Their improvement trajectory may lead straight to your core.''\<rparr>\<close>

definition disk_drives :: CaseStudyPattern where
  \<open>disk_drives =
    \<lparr>CaseStudyPattern.name = ''Disk Drive Generations'',
     pattern = ''New-market disruption with different value network'',
     story = disk_drives_story,
     signals =
       [''New form factor or approach'',
        ''Different performance dimensions valued'',
        ''Enables new use cases existing solutions can't serve'',
        ''Existing customers explicitly don't want it'',
        ''New value network with different profit formula''],
     lessonsForToday =
       ''Your best customers telling you they don't want something may be a signal it will disrupt you, not a signal it's irrelevant.''\<rparr>\<close>

definition honda_motorcycles :: CaseStudyPattern where
  \<open>honda_motorcycles =
    \<lparr>CaseStudyPattern.name = ''Honda Motorcycles in America'',
     pattern = ''Emergent strategy through market learning'',
     story = honda_motorcycles_story,
     signals =
       [''Initial strategy hypothesis doesn't match market reality'',
        ''Unexpected customer segment emerges'',
        ''Product finds use cases different from intended'',
        ''Willingness to learn and adapt'',
        ''Creates new category rather than competing in existing one''],
     lessonsForToday =
       ''The market often knows your strategy better than you do. Pay attention to who actually buys - especially unexpected customers.''\<rparr>\<close>

definition intel_microprocessors :: CaseStudyPattern where
  \<open>intel_microprocessors =
    \<lparr>CaseStudyPattern.name = ''Intel's Pivot to Microprocessors'',
     pattern = ''Capability migration through process investment'',
     story = intel_microprocessors_story,
     signals =
       [''Core business facing commoditization or decline'',
        ''Adjacent opportunity emerging'',
        ''Process capabilities (not just resources) are transferable'',
        ''Requires fundamental priority shift'',
        ''New market values same underlying capabilities differently''],
     lessonsForToday =
       ''When your market is dying, ask what processes you've built that could transfer to new opportunities. Don't just count your resources.''\<rparr>\<close>

text \<open>
  \<open>CANONICAL_CASES\<close>, an object with four own properties; \<open>Object.entries\<close> lists
  them in the order of the declaration.
\<close>

definition CANONICAL_CASES :: "(string \<times> CaseStudyPattern) list" where
  "CANONICAL_CASES =
    [(''steel_minimills'', steel_minimills),
     (''disk_drives'', disk_drives),
     (''honda_motorcycles'', honda_motorcycles),
     (''intel_microprocessors'', intel_microprocessors)]"

datatype ConfidenceLevel = high | medium | low | uncertain

record CaseStudyReference =
  name :: string
  pattern :: string
  relevance :: string
  matchStrength :: ConfidenceLevel

text \<open>The test of the inner loop of \<open>matchToCaseStudies\<close>.\<close>

definition signalMatches :: "string \<Rightarrow> string \<Rightarrow> bool" where
  "signalMatches userLower caseSignal =
     (includesStr userLower (slice0 (toLowerCase caseSignal) 20)
      \<or> includesStr (toLowerCase caseSignal) (slice0 userLower 20))"

text \<open>
  The two loops over one case study, with the two variables they update: for each user
  signal the inner loop stops at the first case signal that passes the test
  (\<open>break\<close>), counts one and records that case signal.
\<close>

fun scanSignals :: "string list \<Rightarrow> string list \<Rightarrow> nat \<times> string list \<Rightarrow> nat \<times> string list" where
  "scanSignals caseSignals [] (matchCount, matchedSignals) = (matchCount, matchedSignals)"
| "scanSignals caseSignals (userSignal # rest) (matchCount, matchedSignals) =
     (case find (signalMatches (toLowerCase userSignal)) caseSignals of
        Some caseSignal \<Rightarrow>
          scanSignals caseSignals rest (matchCount + 1, matchedSignals @ [caseSignal])
      | None \<Rightarrow> scanSignals caseSignals rest (matchCount, matchedSignals))"

text \<open>A number in a template literal: its decimal digits.\<close>

fun showNat :: "nat \<Rightarrow> string" where
  "showNat n = (if n < 10 then [char_of (48 + n)]
                else showNat (n div 10) @ [char_of (48 + n mod 10)])"

text \<open>The entry pushed for a case study that reached \<open>matchCount\<close> matches.\<close>

definition caseEntry :: "CaseStudyPattern \<Rightarrow> nat \<Rightarrow> string list \<Rightarrow> CaseStudyReference" where
  "caseEntry cs matchCount matchedSignals =
     \<lparr>name = CaseStudyPattern.name cs,
      pattern = CaseStudyPattern.pattern cs,
      relevance = ''Matches '' @ showNat matchCount @ '' signals: ''
                  @ join matchedSignals ''; '',
      matchStrength = (if matchCount \<ge> 3 then high
                       else if matchCount \<ge> 2 then medium else low)\<rparr>"

text \<open>The body of the outer loop: what one case study adds to \<open>matches\<close>.\<close>

definition matchCase :: "string list \<Rightarrow> CaseStudyPattern \<Rightarrow> CaseStudyReference list" where
  "matchCase sigs cs =
     (case scanSignals (signals cs) sigs (0, []) of
        (matchCount, matchedSignals) \<Rightarrow>
          if matchCount > 0 then [caseEntry cs matchCount matchedSignals] else [])"

definition order :: "ConfidenceLevel \<Rightarrow> int" where
  "order c = (case c of high \<Rightarrow> 0 | medium \<Rightarrow> 1 | low \<Rightarrow> 2 | uncertain \<Rightarrow> 3)"

text \<open>
  \<open>Array.prototype.sort\<close> is stable, and the comparator is the difference of the two
  ranks: the result is the stable sort by rank.
\<close>

definition matchToCaseStudies :: "string list \<Rightarrow> CaseStudyReference list" where
  "matchToCaseStudies sigs =
     sort_key (\<lambda>m. order (matchStrength m))
       (concat (map (\<lambda>(key, cs). matchCase sigs cs) CANONICAL_CASES))"

text \<open>The value of \<open>matchCount\<close> when the loops over a case study end.\<close>

definition matchCountOf :: "string list \<Rightarrow> CaseStudyPattern \<Rightarrow> nat" where
  "matchCountOf sigs cs = fst (scanSignals (signals cs) sigs (0, []))"

section \<open>The case study tool (\<open>case-study.ts\<close>)\<close>

text \<open>The names that \<open>caseStudySchema\<close> accepts for \<open>caseName\<close>.\<close>

definition caseNameEnum :: "string list" where
  "caseNameEnum =
    [''steel_minimills'', ''disk_drives'', ''milkshake'', ''honda_motorcycles'',
     ''intel_microprocessors'']"

record CaseStudyExtension =
  keyTakeaways :: "string list"
  commonMisapplications :: "string list"
  questionsToAsk :: "string list"

definition steel_minimills_extension :: CaseStudyExtension where
  \<open>steel_minimills_extension =
    \<lparr>keyTakeaways =
       [''Asymmetric motivation is the key - incumbents are RELIEVED to cede low-margin segments'',
        ''The retreat looks rational at every step, but the trajectory leads to disaster'',
        ''Cost structure differences create permanently different incentives'',
        ''Quality improvement in the 'inferior' technology is the warning sign''],
     commonMisapplications =
       [''Assuming any low-cost competitor is disruptive (sustaining low-cost is different)'',
        ''Ignoring the improvement trajectory of the entrant'',
        ''Forgetting that mini-mills had fundamentally different cost structures, not just lower prices''],
     questionsToAsk =
       [''Does the entrant have a fundamentally different cost structure?'',
        ''Are incumbents relieved or threatened by losing this segment?'',
        ''Is the entrant improving along a trajectory toward mainstream needs?'',
        ''What's the next tier the entrant might target?'']\<rparr>\<close>

definition disk_drives_extension :: CaseStudyExtension where
  \<open>disk_drives_extension =
    \<lparr>keyTakeaways =
       [''Existing customers can actively mislead you about future threats'',
        ''New value networks have different performance metrics entirely'',
        ''Being 'worse' on current metrics can mean being 'better' on future metrics'',
        ''The pattern repeated across 5 generations - it's predictable''],
     commonMisapplications =
       [''Assuming all new form factors are disruptive'',
        ''Ignoring that disruption requires a new value network, not just new technology'',
        ''Forgetting the role of enabled applications in driving adoption''],
     questionsToAsk =
       [''What new applications does this enable that weren't possible before?'',
        ''What performance dimensions matter in this new context?'',
        ''Are existing customers explicitly saying they don't want this?'',
        ''What value network would this create or serve?'']\<rparr>\<close>

definition milkshake_extension :: CaseStudyExtension where
  \<open>milkshake_extension =
    \<lparr>keyTakeaways =
       [''The job, not the customer, is the unit of analysis'',
        ''Same product can be hired for completely different jobs'',
        ''Circumstance dramatically changes the job to be done'',
        ''Competition is defined by the job, not the product category''],
     commonMisapplications =
       [''Treating all customer feedback as equivalent regardless of circumstance'',
        ''Segmenting by demographics instead of jobs'',
        ''Assuming competitors are other products in the same category''],
     questionsToAsk =
       [''What job is being done in THIS specific circumstance?'',
        ''What would the customer hire if your product didn't exist?'',
        ''Are there different jobs for different times/places/contexts?'',
        ''What are the functional, emotional, and social dimensions?'']\<rparr>\<close>

definition honda_motorcycles_extension :: CaseStudyExtension where
  \<open>honda_motorcycles_extension =
    \<lparr>keyTakeaways =
       [''Initial strategy hypotheses are often wrong'',
        ''Markets teach you your strategy if you're willing to learn'',
        ''Unexpected customer segments can be more valuable than target segments'',
        ''Creating a new category avoids head-to-head competition''],
     commonMisapplications =
       [''Using this to justify pivoting without market evidence'',
        ''Ignoring the discipline Honda had in their original approach'',
        ''Forgetting that Honda eventually did move upmarket successfully''],
     questionsToAsk =
       [''What unexpected demand are you seeing?'',
        ''Who is buying that you didn't expect?'',
        ''What are they using it for that you didn't anticipate?'',
        ''Are you willing to follow the market's teaching?'']\<rparr>\<close>

definition intel_microprocessors_extension :: CaseStudyExtension where
  \<open>intel_microprocessors_extension =
    \<lparr>keyTakeaways =
       [''Processes transfer; resources don't guarantee success'',
        ''Capability migration requires recognizing what you're actually good at'',
        ''The underlying skill matters more than the specific product'',
        ''Priorities must shift to enable the transition''],
     commonMisapplications =
       [''Assuming any adjacent market is accessible'',
        ''Focusing on resources without examining processes'',
        ''Ignoring the difficulty of priority shifts''],
     questionsToAsk =
       [''What processes have you developed that could transfer?'',
        ''What are you actually good at, underneath the current product?'',
        ''Would your priorities allow you to invest in this new direction?'',
        ''Is there a clear path from current capabilities to the new opportunity?'']\<rparr>\<close>

definition CASE_STUDY_EXTENSIONS :: "(string \<times> CaseStudyExtension) list" where
  "CASE_STUDY_EXTENSIONS =
    [(''steel_minimills'', steel_minimills_extension),
     (''disk_drives'', disk_drives_extension),
     (''milkshake'', milkshake_extension),
     (''honda_motorcycles'', honda_motorcycles_extension),
     (''intel_microprocessors'', intel_microprocessors_extension)]"

text \<open>
  \<open>obj[key]\<close> on an object literal: an own property, or one of the properties that every
  object inherits from \<open>Object.prototype\<close> (a function or an object, so truthy, and
  without the fields of a table entry), or \<open>undefined\<close>.
\<close>

definition objectPrototypeProperties :: "string list" where
  "objectPrototypeProperties =
    [''constructor'', ''__defineGetter__'', ''__defineSetter__'', ''hasOwnProperty'',
     ''__lookupGetter__'', ''__lookupSetter__'', ''isPrototypeOf'', ''propertyIsEnumerable'',
     ''toString'', ''valueOf'', ''__proto__'', ''toLocaleString'']"

datatype 'a property = Own 'a | Inherited | Undefined

definition getProperty :: "(string \<times> 'a) list \<Rightarrow> string \<Rightarrow> 'a property" where
  "getProperty obj key =
     (case map_of obj key of
        Some v \<Rightarrow> Own v
      | None \<Rightarrow> if key \<in> set objectPrototypeProperties then Inherited else Undefined)"

datatype jsError = TypeError | ZodError

text \<open>\<open>xs.map((s) => `- ${s}`).join("\n")\<close>.\<close>

definition bullets :: "string list \<Rightarrow> string" where
  "bullets xs = join (map (\<lambda>s. ''- '' @ s) xs) newline"

text \<open>
  \<open>getCaseStudyDetail\<close> returns a string in every branch of its own. Reading
  \<open>.signals.map\<close> of an inherited property, or \<open>.keyTakeaways\<close> of a missing extension,
  throws a \<open>TypeError\<close>.
\<close>

definition getCaseStudyDetail :: "string \<Rightarrow> jsError + string" where
  \<open>getCaseStudyDetail caseName =
     (case getProperty CANONICAL_CASES caseName of
        Undefined \<Rightarrow> Inr (''Case study "'' @ caseName @ ''" not found.'')
      | Inherited \<Rightarrow> Inl TypeError
      | Own cs \<Rightarrow>
          (case getProperty CASE_STUDY_EXTENSIONS caseName of
             Own extension \<Rightarrow>
               Inr (trim (join
                 ['''',
                  ''# '' @ CaseStudyPattern.name cs,
                  '''',
                  ''## Pattern'',
                  ''**'' @ CaseStudyPattern.pattern cs @ ''**'',
                  '''',
                  ''## The Story'',
                  story cs,
                  '''',
                  ''## Signals That Match This Pattern'',
                  bullets (signals cs),
                  '''',
                  ''## Key Takeaways'',
                  bullets (keyTakeaways extension),
                  '''',
                  ''## Common Misapplications'',
                  bullets (commonMisapplications extension),
                  '''',
                  ''## Questions to Ask'',
                  bullets (questionsToAsk extension),
                  '''',
                  ''## Lesson for Today'',
                  lessonsForToday cs,
                  '''']
                 newline))
           | _ \<Rightarrow> Inl TypeError))\<close>






text \<open>
  The argument of \<open>findCaseStudy\<close>. \<open>caseName\<close> is any string here: a value outside
  the enumeration of the schema is what \<open>caseStudySchema.parse\<close> refuses, with a
  \<open>ZodError\<close>. The other fields have the types the schema asks for; an argument of
  another shape is refused by the schema as well.
\<close>

record CaseStudyInput =
  situation :: string
  observedSignals :: "string list option"
  caseName :: "string option"



section \<open>The rules as the specification words them\<close>

text \<open>
  The pair test with both strings case-folded and trimmed, and the count of the distinct
  signal descriptors of a record that some observation matches.
\<close>

definition spec_normalize :: "string \<Rightarrow> string" where
  "spec_normalize s = trim (toLowerCase s)"

definition spec_pairMatches :: "string \<Rightarrow> string \<Rightarrow> bool" where
  "spec_pairMatches observation descriptor =
     (let nu = spec_normalize observation; nc = spec_normalize descriptor
      in includesStr nc (take 20 nu) \<or> includesStr nu (take 20 nc))"

definition spec_matchCount :: "string list \<Rightarrow> CaseStudyPattern \<Rightarrow> nat" where
  "spec_matchCount observations cs =
     length (filter (\<lambda>d. list_ex (\<lambda>u. spec_pairMatches u d) observations)
                    (remdups (signals cs)))"

section \<open>What a pattern can match\<close>

text \<open>
  The texts a pattern can consume, disregarding the conditions on the text around them:
  a word boundary and a lookaround consume nothing. \<open>moved st m st'\<close>: from the state
  \<open>st\<close> the matcher has consumed \<open>m\<close> and stands at \<open>st'\<close>.
\<close>

inductive_set starL :: "string set \<Rightarrow> string set" for A :: "string set" where
  starL_Nil: "[] \<in> starL A"
| starL_app: "u \<in> A \<Longrightarrow> v \<in> starL A \<Longrightarrow> u @ v \<in> starL A"

primrec lang :: "rx \<Rightarrow> string set" where
  "lang (Atom p) = {[c] | c. p c}"
| "lang (Lit w) = {m. map canon m = map canon w}"
| "lang (Seq r1 r2) = {m1 @ m2 | m1 m2. m1 \<in> lang r1 \<and> m2 \<in> lang r2}"
| "lang (Alt r1 r2) = lang r1 \<union> lang r2"
| "lang (Opt r) = insert [] (lang r)"
| "lang (Star r) = starL (lang r)"
| "lang WordB = {[]}"
| "lang (NotBehind r) = {[]}"
| "lang (NotAhead r) = {[]}"

definition moved :: "pos \<Rightarrow> string \<Rightarrow> pos \<Rightarrow> bool" where
  "moved st m st' = (snd st = m @ snd st' \<and> fst st' = rev m @ fst st)"

text \<open>
  For a pattern built from literals without a class and without a repetition, the
  lower-cased texts it can consume are finitely many: \<open>lows\<close> lists them.
\<close>

primrec plain :: "rx \<Rightarrow> bool" where
  "plain (Atom p) = False"
| "plain (Lit w) = True"
| "plain (Seq r1 r2) = (plain r1 \<and> plain r2)"
| "plain (Alt r1 r2) = (plain r1 \<and> plain r2)"
| "plain (Opt r) = plain r"
| "plain (Star r) = False"
| "plain WordB = True"
| "plain (NotBehind r) = True"
| "plain (NotAhead r) = True"

primrec lows :: "rx \<Rightarrow> string list" where
  "lows (Atom p) = []"
| "lows (Lit w) = [toLowerCase w]"
| "lows (Seq r1 r2) = concat (map (\<lambda>a. map (\<lambda>b. a @ b) (lows r2)) (lows r1))"
| "lows (Alt r1 r2) = lows r1 @ lows r2"
| "lows (Opt r) = [] # lows r"
| "lows (Star r) = []"
| "lows WordB = [[]]"
| "lows (NotBehind r) = [[]]"
| "lows (NotAhead r) = [[]]"

text \<open>
  A coarser view for telling the patterns of one category apart: a shape fixes the
  lower-cased units of a consumed text position by position, leaves a unit of a class
  open, and is open at its end where a repetition starts. Two shapes clash when no
  text fits both.
\<close>

datatype unitShape = Exactly char | AnyUnit

type_synonym shape = "unitShape list \<times> bool"

primrec shapes :: "rx \<Rightarrow> shape list" where
  "shapes (Atom p) = [([AnyUnit], False)]"
| "shapes (Lit w) = [(map (\<lambda>c. Exactly (lowerUnit c)) w, False)]"
| "shapes (Seq r1 r2) =
     concat (map (\<lambda>s1. if snd s1 then [s1]
                         else map (\<lambda>s2. (fst s1 @ fst s2, snd s2)) (shapes r2))
                 (shapes r1))"
| "shapes (Alt r1 r2) = shapes r1 @ shapes r2"
| "shapes (Opt r) = ([], False) # shapes r"
| "shapes (Star r) = [([], True)]"
| "shapes WordB = [([], False)]"
| "shapes (NotBehind r) = [([], False)]"
| "shapes (NotAhead r) = [([], False)]"

fun fitsUnits :: "string \<Rightarrow> unitShape list \<Rightarrow> bool" where
  "fitsUnits w [] = True"
| "fitsUnits [] (u # us) = False"
| "fitsUnits (c # w) (u # us) =
     ((case u of Exactly d \<Rightarrow> c = d | AnyUnit \<Rightarrow> True) \<and> fitsUnits w us)"

definition fits :: "string \<Rightarrow> shape \<Rightarrow> bool" where
  "fits w s = (fitsUnits w (fst s) \<and> (snd s \<or> length w = length (fst s)))"

fun clashUnits :: "unitShape list \<Rightarrow> unitShape list \<Rightarrow> bool" where
  "clashUnits [] vs = False"
| "clashUnits (u # us) [] = False"
| "clashUnits (u # us) (v # vs) =
     ((case u of Exactly c \<Rightarrow> (case v of Exactly d \<Rightarrow> c \<noteq> d | AnyUnit \<Rightarrow> False)
               | AnyUnit \<Rightarrow> False)
      \<or> clashUnits us vs)"

definition clash :: "shape \<Rightarrow> shape \<Rightarrow> bool" where
  "clash s t =
     (clashUnits (fst s) (fst t)
      \<or> (\<not> snd s \<and> \<not> snd t \<and> length (fst s) \<noteq> length (fst t))
      \<or> (\<not> snd s \<and> snd t \<and> length (fst s) < length (fst t))
      \<or> (snd s \<and> \<not> snd t \<and> length (fst t) < length (fst s)))"

definition apart :: "rx \<Rightarrow> rx \<Rightarrow> bool" where
  "apart p q = list_all (\<lambda>s. list_all (clash s) (shapes q)) (shapes p)"

fun pairwiseApart :: "rx list \<Rightarrow> bool" where
  "pairwiseApart [] = True"
| "pairwiseApart (p # ps) = (list_all (apart p) ps \<and> pairwiseApart ps)"

section \<open>Unit classes on the bits of a unit\<close>

text \<open>The arithmetic definitions of the unit classes, as equations on the eight bits.\<close>

lemma canon_Char [code]:
  "canon (Char b0 b1 b2 b3 b4 b5 b6 b7) =
     (if \<not> b7 \<and> b6 \<and> b5 \<and> (b0 \<or> b1 \<or> b2 \<or> b3 \<or> b4) \<and> \<not> (b4 \<and> b3 \<and> (b2 \<or> (b1 \<and> b0)))
      then Char b0 b1 b2 b3 b4 False b6 b7 else Char b0 b1 b2 b3 b4 b5 b6 b7)"
  by (cases b0; cases b1; cases b2; cases b3; cases b4; cases b5; cases b6; cases b7)
     (simp_all add: canon_def char_of_def bit_Suc_0_iff)

lemma isWordChar_Char [code]:
  "isWordChar (Char b0 b1 b2 b3 b4 b5 b6 b7) =
     (\<not> b7 \<and> (if b6 then (b0 \<and> b1 \<and> b2 \<and> b3 \<and> b4 \<and> \<not> b5) \<or>
                          ((b0 \<or> b1 \<or> b2 \<or> b3 \<or> b4) \<and> \<not> (b4 \<and> b3 \<and> (b2 \<or> (b1 \<and> b0))))
                 else b5 \<and> b4 \<and> \<not> (b3 \<and> (b2 \<or> b1))))"
  by (cases b0; cases b1; cases b2; cases b3; cases b4; cases b5; cases b6; cases b7)
     (simp_all add: isWordChar_def)

lemma isDigit_Char [code]:
  "isDigit (Char b0 b1 b2 b3 b4 b5 b6 b7) =
     (\<not> b7 \<and> \<not> b6 \<and> b5 \<and> b4 \<and> \<not> (b3 \<and> (b2 \<or> b1)))"
  by (cases b0; cases b1; cases b2; cases b3; cases b4; cases b5; cases b6; cases b7)
     (simp_all add: isDigit_def)


lemma lowerUnit_Char [code]:
  "lowerUnit (Char b0 b1 b2 b3 b4 b5 b6 b7) =
     (if b6 \<and> \<not> b5 \<and>
         (if b7 then \<not> (b4 \<and> b3 \<and> b2 \<and> b1 \<and> b0) \<and> \<not> (b4 \<and> \<not> b3 \<and> b2 \<and> b1 \<and> b0)
          else (b0 \<or> b1 \<or> b2 \<or> b3 \<or> b4) \<and> \<not> (b4 \<and> b3 \<and> (b2 \<or> (b1 \<and> b0))))
      then Char b0 b1 b2 b3 b4 True b6 b7 else Char b0 b1 b2 b3 b4 b5 b6 b7)"
  by (cases b0; cases b1; cases b2; cases b3; cases b4; cases b5; cases b6; cases b7)
     (simp_all add: lowerUnit_def char_of_def bit_Suc_0_iff)

text \<open>The unit standing for the arrow is in no class and has no other case.\<close>

lemma rightArrow_unit:
  "toLowerCase rightArrow = rightArrow \<and> map canon rightArrow = rightArrow
   \<and> \<not> list_ex isSpace rightArrow \<and> \<not> list_ex isWordChar rightArrow
   \<and> \<not> list_ex isDigit rightArrow \<and> rightArrow \<noteq> newline \<and> rightArrow \<noteq> ''.''"
  by code_simp

section \<open>The fidelity score\<close>

lemma found_categoryResult: "found (categoryResult ms) = (ms \<noteq> [])"
  by (simp add: categoryResult_def)

lemma matches_categoryResult: "matches (categoryResult ms) = ms"
  by (simp add: categoryResult_def)

lemma countTrue_bounds: "0 \<le> countTrue items \<and> countTrue items \<le> int (length items)"
  by (simp add: countTrue_def)

lemma penalty_field:
  "antiPatternPenalty (calculateFidelityScore t) =
     (if found (overconfidence (antiPatterns (calculateFidelityScore t))) then 10 else 0)
   + (if found (dismissive (antiPatterns (calculateFidelityScore t))) then 15 else 0)
   + (if found (generic (antiPatterns (calculateFidelityScore t))) then 5 else 0)"
  unfolding calculateFidelityScore_def Let_def by (simp split del: if_split)

lemma overall_field:
  "overall (calculateFidelityScore t) =
     max 0 (min 100 (mustIncludeScore (calculateFidelityScore t) * 10
                     + shouldIncludeScore (calculateFidelityScore t) * 10
                     - antiPatternPenalty (calculateFidelityScore t)))"
  unfolding calculateFidelityScore_def Let_def by (simp split del: if_split)

lemma passed_field:
  "passed (calculateFidelityScore t) =
     (mustIncludeScore (calculateFidelityScore t) \<ge> 4
      \<and> \<not> found (dismissive (antiPatterns (calculateFidelityScore t)))
      \<and> \<not> found (overconfidence (antiPatterns (calculateFidelityScore t))))"
  unfolding calculateFidelityScore_def Let_def by (simp split del: if_split)

lemma mustInclude_field:
  "mustIncludeScore (calculateFidelityScore t) =
     countTrue [found (frameworkReference (breakdown (calculateFidelityScore t))),
                found (jtbdQuestion (breakdown (calculateFidelityScore t))),
                found (humility (breakdown (calculateFidelityScore t))),
                found (caseStudy (breakdown (calculateFidelityScore t))),
                found (constraints (breakdown (calculateFidelityScore t)))]"
  unfolding calculateFidelityScore_def Let_def by (simp split del: if_split)

lemma shouldInclude_field:
  "shouldIncludeScore (calculateFidelityScore t) =
     countTrue [found (Breakdown.story (breakdown (calculateFidelityScore t))),
                length (matches (frameworkReference (breakdown (calculateFidelityScore t)))) > 1,
                length (matches (humility (breakdown (calculateFidelityScore t)))) > 1,
                length (matches (jtbdQuestion (breakdown (calculateFidelityScore t)))) > 0
                \<and> found (constraints (breakdown (calculateFidelityScore t)))]"
  unfolding calculateFidelityScore_def Let_def by (simp split del: if_split)

lemma breakdown_field:
  "breakdown (calculateFidelityScore t) =
     \<lparr>frameworkReference =
        categoryResult (findMatches t POSITIVE_PATTERNS_frameworkReference None),
      jtbdQuestion = categoryResult (findMatches t POSITIVE_PATTERNS_jtbdQuestion None),
      humility = categoryResult (findMatches t POSITIVE_PATTERNS_humility None),
      caseStudy = categoryResult (findMatches t POSITIVE_PATTERNS_caseStudy None),
      constraints = categoryResult (findMatches t POSITIVE_PATTERNS_constraints None),
      story = categoryResult (findMatches t POSITIVE_PATTERNS_story None)\<rparr>"
  unfolding calculateFidelityScore_def Let_def by (simp split del: if_split)

lemma antiPatterns_field:
  "antiPatterns (calculateFidelityScore t) =
     \<lparr>overconfidence =
        categoryResult (findMatches t NEGATIVE_PATTERNS_overconfidence (Some ''overconfidence'')),
      dismissive =
        categoryResult (findMatches t NEGATIVE_PATTERNS_dismissive (Some ''dismissive'')),
      generic = categoryResult (findMatches t NEGATIVE_PATTERNS_generic None)\<rparr>"
  unfolding calculateFidelityScore_def Let_def by (simp split del: if_split)

text \<open>
  C1. For every text, the penalty is 10 for a triggered overconfidence category plus 15
  for a triggered dismissive category (as \<open>findMatches\<close> leaves it after the special
  case) plus 5 for a triggered generic category, nothing else; \<open>overall\<close> is
  \<open>mustIncludeScore * 10 + shouldIncludeScore * 10 - penalty\<close> clamped to \<open>0..100\<close>, so it
  always lies in that range.
\<close>

theorem overall_is_clamped_score:
  "(let S = calculateFidelityScore t;
        ap = antiPatterns S;
        penalty = (if found (overconfidence ap) then 10 else 0)
                + (if found (dismissive ap) then 15 else 0)
                + (if found (generic ap) then 5 else 0)
    in antiPatternPenalty S = penalty
     \<and> overall S = max 0 (min 100 (mustIncludeScore S * 10 + shouldIncludeScore S * 10 - penalty))
     \<and> 0 \<le> overall S \<and> overall S \<le> 100)"
proof -
  have "0 \<le> overall (calculateFidelityScore t)" "overall (calculateFidelityScore t) \<le> 100"
    by (simp_all add: overall_field)
  moreover note penalty_field [of t, symmetric] overall_field [of t]
  ultimately show ?thesis
    by (simp only: Let_def)
qed

theorem overall_is_clamped_score_witness:
  "(let S = calculateFidelityScore ''Guaranteed disruption'';
        ap = antiPatterns S;
        penalty = (if found (overconfidence ap) then 10 else 0)
                + (if found (dismissive ap) then 15 else 0)
                + (if found (generic ap) then 5 else 0)
    in antiPatternPenalty S = penalty
     \<and> overall S = max 0 (min 100 (mustIncludeScore S * 10 + shouldIncludeScore S * 10 - penalty))
     \<and> 0 \<le> overall S \<and> overall S \<le> 100)
   \<and> mustIncludeScore (calculateFidelityScore ''Guaranteed disruption'') = 1
   \<and> shouldIncludeScore (calculateFidelityScore ''Guaranteed disruption'') = 0
   \<and> antiPatternPenalty (calculateFidelityScore ''Guaranteed disruption'') = 10
   \<and> overall (calculateFidelityScore ''Guaranteed disruption'') = 0"
proof -
  have "mustIncludeScore (calculateFidelityScore ''Guaranteed disruption'') = 1
   \<and> shouldIncludeScore (calculateFidelityScore ''Guaranteed disruption'') = 0
   \<and> antiPatternPenalty (calculateFidelityScore ''Guaranteed disruption'') = 10
   \<and> overall (calculateFidelityScore ''Guaranteed disruption'') = 0"
    by code_simp
  with overall_is_clamped_score [of "''Guaranteed disruption''"] show ?thesis
    by (rule conjI)
qed

text \<open>
  C4. For every text, \<open>passed\<close> holds exactly when at least four of the five must-include
  categories were found and neither the overconfidence nor the dismissive category was
  found; the generic category is no part of the condition, and with fewer than four
  must-include categories \<open>passed\<close> is false whatever the penalty.
\<close>

theorem passed_condition:
  "(let S = calculateFidelityScore t; bd = breakdown S; ap = antiPatterns S
    in mustIncludeScore S = countTrue [found (frameworkReference bd), found (jtbdQuestion bd),
                                       found (humility bd), found (caseStudy bd),
                                       found (constraints bd)]
     \<and> passed S = (mustIncludeScore S \<ge> 4 \<and> \<not> found (overconfidence ap) \<and> \<not> found (dismissive ap))
     \<and> (mustIncludeScore S < 4 \<longrightarrow> \<not> passed S))"
proof -
  have "mustIncludeScore (calculateFidelityScore t) < 4 \<longrightarrow> \<not> passed (calculateFidelityScore t)"
    by (simp add: passed_field)
  moreover have "passed (calculateFidelityScore t) =
     (mustIncludeScore (calculateFidelityScore t) \<ge> 4
      \<and> \<not> found (overconfidence (antiPatterns (calculateFidelityScore t)))
      \<and> \<not> found (dismissive (antiPatterns (calculateFidelityScore t))))"
    by (auto simp add: passed_field)
  moreover note mustInclude_field [of t]
  ultimately show ?thesis
    by (simp only: Let_def)
qed

theorem passed_condition_witness:
  "mustIncludeScore (calculateFidelityScore ''industry standard'') < 4
   \<and> \<not> passed (calculateFidelityScore ''industry standard'')"
proof -
  have "mustIncludeScore (calculateFidelityScore ''industry standard'') = 0"
    by code_simp
  with passed_condition [of "''industry standard''"] show ?thesis
    by (simp add: Let_def)
qed

section \<open>Matching signals to case studies\<close>

declare showNat.simps [simp del]

lemma startsWith_prefix: "startsWith xs ys \<longleftrightarrow> prefix ys xs"
  by (induction xs ys rule: startsWith.induct) auto

lemma includesStr_sublist: "includesStr xs ys \<longleftrightarrow> sublist ys xs"
  by (induction xs) (auto simp add: startsWith_prefix sublist_Cons_right)

lemma scanSignals_acc:
  "scanSignals cs us (n, ms) =
     (n + length (List.map_filter (\<lambda>u. find (signalMatches (toLowerCase u)) cs) us),
      ms @ List.map_filter (\<lambda>u. find (signalMatches (toLowerCase u)) cs) us)"
  by (induction us arbitrary: n ms) (auto split: option.splits)

lemma find_None_list_ex: "(find P xs = None) = (\<not> list_ex P xs)"
  by (auto simp add: find_None_iff list_ex_iff)

lemma length_map_filter_find:
  "length (List.map_filter (\<lambda>u. find (P u) cs) us) = length (filter (\<lambda>u. list_ex (P u) cs) us)"
proof (induction us)
  case Nil
  show ?case by simp
next
  case (Cons u us)
  then show ?case
    using find_None_list_ex [of "P u" cs] by (cases "find (P u) cs") simp_all
qed

lemma order_inj: "order a = order b \<longleftrightarrow> a = b"
  by (cases a; cases b) (simp_all add: order_def)

lemma matchCase_eq:
  "matchCase sigs cs =
     (if 0 < matchCountOf sigs cs
      then [caseEntry cs (matchCountOf sigs cs) (snd (scanSignals (signals cs) sigs (0, [])))]
      else [])"
  by (simp add: matchCase_def matchCountOf_def split: prod.splits)

lemma entries_eq:
  "concat (map (\<lambda>(key, cs). matchCase sigs cs) xs) =
     map (\<lambda>cs. caseEntry cs (matchCountOf sigs cs) (snd (scanSignals (signals cs) sigs (0, []))))
         (filter (\<lambda>cs. 0 < matchCountOf sigs cs) (map snd xs))"
  by (induction xs) (auto simp add: matchCase_eq)

lemma caseEntry_tier:
  "0 < n \<Longrightarrow> matchStrength (caseEntry cs n ms) = (if 3 \<le> n then high else if n = 2 then medium else low)"
  by (auto simp add: caseEntry_def)

lemma caseEntry_name: "CaseStudyReference.name (caseEntry cs n ms) = CaseStudyPattern.name cs"
  by (simp add: caseEntry_def)

text \<open>
  C2 (as the code has it). The strings are lower-cased and nothing is trimmed. An
  observation and a descriptor pass the test of \<open>matchToCaseStudies\<close> exactly when the
  first 20 units of the lower-cased descriptor occur in the lower-cased observation, or
  the first 20 units of the lower-cased observation occur in the lower-cased descriptor;
  an observation counts for a record exactly when some descriptor of the record passes.
\<close>

theorem signal_pair_test:
  "signalMatches (toLowerCase observation) descriptor =
     (sublist (take 20 (toLowerCase descriptor)) (toLowerCase observation)
      \<or> sublist (take 20 (toLowerCase observation)) (toLowerCase descriptor))
   \<and> fst (scanSignals descriptors [observation] (0, [])) =
       (if list_ex (signalMatches (toLowerCase observation)) descriptors then 1 else 0)"
  using length_map_filter_find [of "\<lambda>u. signalMatches (toLowerCase u)" descriptors "[observation]"]
  by (simp add: signalMatches_def slice0_def includesStr_sublist scanSignals_acc)

theorem signal_pair_test_witness:
  "signalMatches (toLowerCase ''NEW FORM FACTOR'') ''New form factor or approach''
   \<and> sublist (take 20 (toLowerCase ''NEW FORM FACTOR''))
              (toLowerCase ''New form factor or approach'')
   \<and> fst (scanSignals (signals disk_drives) [''NEW FORM FACTOR''] (0, [])) = 1"
proof -
  have a: "includesStr (toLowerCase ''New form factor or approach'')
             (take 20 (toLowerCase ''NEW FORM FACTOR''))"
    by code_simp
  have b: "list_ex (signalMatches (toLowerCase ''NEW FORM FACTOR'')) (signals disk_drives)"
    by code_simp
  from a have c: "sublist (take 20 (toLowerCase ''NEW FORM FACTOR''))
                    (toLowerCase ''New form factor or approach'')"
    by (simp only: includesStr_sublist)
  from signal_pair_test [of "''NEW FORM FACTOR''" "''New form factor or approach''"
         "signals disk_drives"] b c
  show ?thesis
    by simp
qed

text \<open>
  The claim as worded, with trimming, fails: an observation with a leading space matches
  a descriptor after trimming, and \<open>matchToCaseStudies\<close> finds nothing.
\<close>

theorem leading_space_counterexample:
  "spec_pairMatches '' new form factor'' ''New form factor or approach''
   \<and> \<not> signalMatches (toLowerCase '' new form factor'') ''New form factor or approach''
   \<and> matchToCaseStudies ['' new form factor''] = []"
  by code_simp

text \<open>
  C3 (as the code has it). \<open>matchCount\<close> is the number of observations that match at
  least one descriptor of the record. Each such observation adds one, and records the
  first descriptor it matches, even when it matches several; a descriptor that several
  observations match is counted once for each of them.
\<close>

theorem matchCount_counts_observations:
  "scanSignals descriptors observations (0, []) =
     (let ms = List.map_filter (\<lambda>u. find (signalMatches (toLowerCase u)) descriptors) observations
      in (length ms, ms))
   \<and> fst (scanSignals descriptors observations (0, [])) =
       length (filter (\<lambda>u. list_ex (signalMatches (toLowerCase u)) descriptors) observations)"
  by (simp add: scanSignals_acc Let_def length_map_filter_find)

theorem matchCount_counts_observations_witness:
  "scanSignals (signals disk_drives) [''New form factor'', ''no such signal'', ''new form ''] (0, [])
     = (2, [''New form factor or approach'', ''New form factor or approach''])"
proof -
  have "List.map_filter (\<lambda>u. find (signalMatches (toLowerCase u)) (signals disk_drives))
          [''New form factor'', ''no such signal'', ''new form '']
        = [''New form factor or approach'', ''New form factor or approach'']"
    by code_simp
  with matchCount_counts_observations [of "signals disk_drives"
         "[''New form factor'', ''no such signal'', ''new form '']"]
  show ?thesis
    by (simp add: Let_def)
qed

text \<open>
  The claim as worded fails: two observations that match the same descriptor give
  \<open>matchCount = 2\<close>, where one distinct descriptor is matched.
\<close>

theorem repeated_descriptor_counterexample:
  "matchCountOf [''New form factor'', ''new form factor or approach''] disk_drives = 2
   \<and> spec_matchCount [''New form factor'', ''new form factor or approach''] disk_drives = 1
   \<and> map matchStrength (matchToCaseStudies [''New form factor'', ''new form factor or approach''])
       = [medium]"
  by code_simp

text \<open>
  C6. For every list of observations, a record that is kept has tier \<open>high\<close> exactly
  when its \<open>matchCount\<close> is at least 3, \<open>medium\<close> exactly when it is 2, and \<open>low\<close>
  otherwise; the result is sorted by rank, \<open>high\<close> before \<open>medium\<close> before \<open>low\<close>; and
  the entries of each tier stand in the order of the declaration of \<open>CANONICAL_CASES\<close>.
\<close>

theorem tiers_and_stable_order:
  "(let entries = concat (map (\<lambda>(key, cs). matchCase sigs cs) CANONICAL_CASES);
        result = matchToCaseStudies sigs
    in entries = map (\<lambda>cs. caseEntry cs (matchCountOf sigs cs)
                                (snd (scanSignals (signals cs) sigs (0, []))))
                     (filter (\<lambda>cs. 0 < matchCountOf sigs cs) (map snd CANONICAL_CASES))
     \<and> (\<forall>cs n ms. 0 < n \<longrightarrow>
           matchStrength (caseEntry cs n ms) =
             (if 3 \<le> n then high else if n = 2 then medium else low))
     \<and> sorted (map (\<lambda>m. order (matchStrength m)) result)
     \<and> order high < order medium \<and> order medium < order low
     \<and> (\<forall>k. filter (\<lambda>m. matchStrength m = k) result = filter (\<lambda>m. matchStrength m = k) entries)
     \<and> set result = set entries \<and> length result = length entries)"
proof -
  have stable: "filter (\<lambda>m. matchStrength m = k) (matchToCaseStudies sigs) =
      filter (\<lambda>m. matchStrength m = k)
        (concat (map (\<lambda>(key, cs). matchCase sigs cs) CANONICAL_CASES))" for k
    using sort_key_stable [of "\<lambda>m. order (matchStrength m)" "order k"]
    by (simp add: matchToCaseStudies_def order_inj)
  have srt: "sorted (map (\<lambda>m. order (matchStrength m)) (matchToCaseStudies sigs))"
    by (simp add: matchToCaseStudies_def)
  have same: "set (matchToCaseStudies sigs) =
                set (concat (map (\<lambda>(key, cs). matchCase sigs cs) CANONICAL_CASES))"
             "length (matchToCaseStudies sigs) =
                length (concat (map (\<lambda>(key, cs). matchCase sigs cs) CANONICAL_CASES))"
    by (simp_all add: matchToCaseStudies_def)
  have ord: "order high < order medium" "order medium < order low"
    by (simp_all add: order_def)
  from stable srt same ord entries_eq [of sigs CANONICAL_CASES] caseEntry_tier
  show ?thesis
    by (simp only: Let_def) blast
qed


theorem tiers_and_stable_order_witness:
  "concat (map (\<lambda>(key, cs). matchCase
      [''incumbent has high'', ''new form factor'', ''different performance'', ''adjacent opp'']
      cs) CANONICAL_CASES)
     = [caseEntry steel_minimills 1 [''Incumbent has high fixed-cost structure''],
        caseEntry disk_drives 2
          [''New form factor or approach'', ''Different performance dimensions valued''],
        caseEntry intel_microprocessors 1 [''Adjacent opportunity emerging'']]
   \<and> filter (\<lambda>m. matchStrength m = low) (matchToCaseStudies
      [''incumbent has high'', ''new form factor'', ''different performance'', ''adjacent opp''])
     = [caseEntry steel_minimills 1 [''Incumbent has high fixed-cost structure''],
        caseEntry intel_microprocessors 1 [''Adjacent opportunity emerging'']]
   \<and> filter (\<lambda>m. matchStrength m = medium) (matchToCaseStudies
      [''incumbent has high'', ''new form factor'', ''different performance'', ''adjacent opp''])
     = [caseEntry disk_drives 2
          [''New form factor or approach'', ''Different performance dimensions valued'']]
   \<and> (0::nat) < 3 \<and> matchStrength (caseEntry disk_drives 3 []) = high"
proof -
  let ?sigs = "[''incumbent has high'', ''new form factor'', ''different performance'',
                ''adjacent opp'']"
  let ?entries = "[caseEntry steel_minimills 1 [''Incumbent has high fixed-cost structure''],
        caseEntry disk_drives 2
          [''New form factor or approach'', ''Different performance dimensions valued''],
        caseEntry intel_microprocessors 1 [''Adjacent opportunity emerging'']]"
  have e: "concat (map (\<lambda>(key, cs). matchCase ?sigs cs) CANONICAL_CASES) = ?entries"
    by code_simp
  have t: "filter (\<lambda>m. matchStrength m = low) ?entries =
             [caseEntry steel_minimills 1 [''Incumbent has high fixed-cost structure''],
              caseEntry intel_microprocessors 1 [''Adjacent opportunity emerging'']]"
          "filter (\<lambda>m. matchStrength m = medium) ?entries =
             [caseEntry disk_drives 2
               [''New form factor or approach'', ''Different performance dimensions valued'']]"
    by (simp_all add: caseEntry_tier)
  from tiers_and_stable_order [of ?sigs]
  have s: "filter (\<lambda>m. matchStrength m = k) (matchToCaseStudies ?sigs) =
        filter (\<lambda>m. matchStrength m = k)
          (concat (map (\<lambda>(key, cs). matchCase ?sigs cs) CANONICAL_CASES))" for k
    unfolding Let_def by blast
  from tiers_and_stable_order [of ?sigs]
  have h: "(0::nat) < 3 \<longrightarrow> matchStrength (caseEntry disk_drives 3 []) =
          (if (3::nat) \<le> 3 then high else if (3::nat) = 2 then medium else low)"
    unfolding Let_def by blast
  from h have h': "matchStrength (caseEntry disk_drives 3 []) = high"
    by simp
  show ?thesis
    unfolding s e t h' by simp
qed

lemma case_names_distinct: "distinct (map CaseStudyPattern.name (map snd CANONICAL_CASES))"
  by (simp add: CANONICAL_CASES_def steel_minimills_def disk_drives_def honda_motorcycles_def
        intel_microprocessors_def)

lemma case_names_inj: "inj_on CaseStudyPattern.name (set (map snd CANONICAL_CASES))"
  using case_names_distinct by (simp only: distinct_map)

lemma matchToCaseStudies_set:
  "set (matchToCaseStudies sigs) =
     (\<lambda>cs. caseEntry cs (matchCountOf sigs cs) (snd (scanSignals (signals cs) sigs (0, []))))
       ` {cs \<in> set (map snd CANONICAL_CASES). 0 < matchCountOf sigs cs}"
  by (simp add: matchToCaseStudies_def entries_eq)

text \<open>
  C7. For every list of observations, every entry of the result was built for a record
  with \<open>matchCount\<close> at least 1 and carries one of the three tiers; a record with
  \<open>matchCount = 0\<close> has no entry; and the empty list of observations gives the empty
  result.
\<close>

theorem no_match_elision:
  "matchToCaseStudies [] = []
   \<and> (\<forall>m \<in> set (matchToCaseStudies sigs).
        \<exists>cs \<in> set (map snd CANONICAL_CASES).
          1 \<le> matchCountOf sigs cs
          \<and> m = caseEntry cs (matchCountOf sigs cs) (snd (scanSignals (signals cs) sigs (0, [])))
          \<and> matchStrength m \<noteq> uncertain)
   \<and> (\<forall>cs \<in> set (map snd CANONICAL_CASES).
        matchCountOf sigs cs = 0 \<longrightarrow>
          CaseStudyPattern.name cs \<notin> CaseStudyReference.name ` set (matchToCaseStudies sigs))"
proof -
  have empty: "matchToCaseStudies [] = []"
    by (simp add: matchToCaseStudies_def entries_eq matchCountOf_def)
  have inj: "cs = cs'"
    if "cs \<in> set (map snd CANONICAL_CASES)" "cs' \<in> set (map snd CANONICAL_CASES)"
       "CaseStudyPattern.name cs = CaseStudyPattern.name cs'" for cs cs'
    using that case_names_inj unfolding inj_on_def by blast
  have a: "\<exists>cs \<in> set (map snd CANONICAL_CASES).
          1 \<le> matchCountOf sigs cs
          \<and> m = caseEntry cs (matchCountOf sigs cs) (snd (scanSignals (signals cs) sigs (0, [])))
          \<and> matchStrength m \<noteq> uncertain"
    if "m \<in> set (matchToCaseStudies sigs)" for m
  proof -
    from that obtain cs where cs: "cs \<in> set (map snd CANONICAL_CASES)" "0 < matchCountOf sigs cs"
      "m = caseEntry cs (matchCountOf sigs cs) (snd (scanSignals (signals cs) sigs (0, [])))"
      unfolding matchToCaseStudies_set by blast
    moreover from cs have "matchStrength m \<noteq> uncertain"
      by (simp add: caseEntry_def)
    ultimately show ?thesis by (intro bexI [of _ cs]) simp_all
  qed
  have b: "CaseStudyPattern.name cs \<notin> CaseStudyReference.name ` set (matchToCaseStudies sigs)"
    if "cs \<in> set (map snd CANONICAL_CASES)" "matchCountOf sigs cs = 0" for cs
  proof
    assume "CaseStudyPattern.name cs \<in> CaseStudyReference.name ` set (matchToCaseStudies sigs)"
    then obtain m where m: "m \<in> set (matchToCaseStudies sigs)"
        "CaseStudyPattern.name cs = CaseStudyReference.name m"
      by blast
    from a [OF m(1)] obtain cs' where cs': "cs' \<in> set (map snd CANONICAL_CASES)"
        "1 \<le> matchCountOf sigs cs'"
        "m = caseEntry cs' (matchCountOf sigs cs') (snd (scanSignals (signals cs') sigs (0, [])))"
      by blast
    from m(2) cs'(3) have "CaseStudyPattern.name cs = CaseStudyPattern.name cs'"
      by (simp add: caseEntry_name)
    with inj [OF that(1) cs'(1)] have "cs = cs'"
      by simp
    with that(2) cs'(2) show False
      by simp
  qed
  from empty a b show ?thesis by blast
qed

theorem no_match_elision_witness:
  "caseEntry disk_drives 1 [''New form factor or approach'']
       \<in> set (matchToCaseStudies [''new form factor''])
   \<and> (\<exists>cs \<in> set (map snd CANONICAL_CASES).
          1 \<le> matchCountOf [''new form factor''] cs
          \<and> caseEntry disk_drives 1 [''New form factor or approach'']
              = caseEntry cs (matchCountOf [''new form factor''] cs)
                  (snd (scanSignals (signals cs) [''new form factor''] (0, []))))
   \<and> steel_minimills \<in> set (map snd CANONICAL_CASES)
   \<and> matchCountOf [''new form factor''] steel_minimills = 0
   \<and> CaseStudyPattern.name steel_minimills
        \<notin> CaseStudyReference.name ` set (matchToCaseStudies [''new form factor''])"
proof -
  have m: "matchToCaseStudies [''new form factor''] =
             [caseEntry disk_drives 1 [''New form factor or approach'']]"
    by code_simp
  then have m': "caseEntry disk_drives 1 [''New form factor or approach'']
       \<in> set (matchToCaseStudies [''new form factor''])"
    by simp
  have c: "matchCountOf [''new form factor''] steel_minimills = 0"
    by code_simp
  have s: "steel_minimills \<in> set (map snd CANONICAL_CASES)"
    by (simp add: CANONICAL_CASES_def)
  from no_match_elision [of "[''new form factor'']"] m' c s show ?thesis
    by blast
qed

section \<open>Looking a case study up\<close>




lemma own_keys: "map fst CANONICAL_CASES =
    [''steel_minimills'', ''disk_drives'', ''honda_motorcycles'', ''intel_microprocessors'']"
  by (simp add: CANONICAL_CASES_def)




lemma case_names: "map CaseStudyPattern.name (map snd CANONICAL_CASES) =
    [''Steel Mini-Mills'', ''Disk Drive Generations'', ''Honda Motorcycles in America'',
     ''Intel'' @ [CHR 0x27] @ ''s Pivot to Microprocessors'']"
  by (simp add: CANONICAL_CASES_def steel_minimills_def disk_drives_def honda_motorcycles_def
        intel_microprocessors_def)

lemma matchToCaseStudies_names:
  "set (map CaseStudyReference.name (matchToCaseStudies sigs))
     \<subseteq> set (map CaseStudyPattern.name (map snd CANONICAL_CASES))"
proof
  fix n assume "n \<in> set (map CaseStudyReference.name (matchToCaseStudies sigs))"
  then obtain m where m: "m \<in> set (matchToCaseStudies sigs)" "n = CaseStudyReference.name m"
    by auto
  from m(1) obtain cs where cs: "cs \<in> set (map snd CANONICAL_CASES)"
      "m = caseEntry cs (matchCountOf sigs cs) (snd (scanSignals (signals cs) sigs (0, [])))"
    unfolding matchToCaseStudies_set by blast
  from m(2) cs(2) have "n = CaseStudyPattern.name cs"
    by (simp add: caseEntry_name)
  with cs(1) show "n \<in> set (map CaseStudyPattern.name (map snd CANONICAL_CASES))"
    by (simp only: set_map image_eqI)
qed

lemma matchToCaseStudies_length: "length (matchToCaseStudies sigs) \<le> 4"
proof -
  have "length (matchToCaseStudies sigs) =
          length (filter (\<lambda>cs. 0 < matchCountOf sigs cs) (map snd CANONICAL_CASES))"
    by (simp add: matchToCaseStudies_def entries_eq)
  also have "\<dots> \<le> length (map snd CANONICAL_CASES)"
    by (rule length_filter_le)
  also have "\<dots> = 4"
    by (simp add: CANONICAL_CASES_def)
  finally show ?thesis .
qed



















text \<open>
  C10. The schema accepts five case names, \<open>milkshake\<close> among them, and
  \<open>CANONICAL_CASES\<close> has four keys, without \<open>milkshake\<close>: looking \<open>milkshake\<close> up
  returns the string \<open>Case study "milkshake" not found.\<close>, and for every list of
  observations the result of \<open>matchToCaseStudies\<close> holds at most four entries, all named
  after the four records of the table.
\<close>

theorem milkshake_not_in_library:
  "''milkshake'' \<in> set caseNameEnum \<and> length caseNameEnum = 5
   \<and> map fst CANONICAL_CASES =
       [''steel_minimills'', ''disk_drives'', ''honda_motorcycles'', ''intel_microprocessors'']
   \<and> getCaseStudyDetail ''milkshake''
       = Inr (''Case study '' @ [CHR 0x22] @ ''milkshake'' @ [CHR 0x22] @ '' not found.'')
   \<and> set (map CaseStudyReference.name (matchToCaseStudies sigs))
       \<subseteq> {''Steel Mini-Mills'', ''Disk Drive Generations'', ''Honda Motorcycles in America'',
           ''Intel'' @ [CHR 0x27] @ ''s Pivot to Microprocessors''}
   \<and> length (matchToCaseStudies sigs) \<le> 4"
proof -
  have a: "''milkshake'' \<in> set caseNameEnum" "length caseNameEnum = 5"
    by (simp_all add: caseNameEnum_def)
  have b: "getCaseStudyDetail ''milkshake''
       = Inr (''Case study '' @ [CHR 0x22] @ ''milkshake'' @ [CHR 0x22] @ '' not found.'')"
    by code_simp
  have c: "set (map CaseStudyReference.name (matchToCaseStudies sigs))
       \<subseteq> {''Steel Mini-Mills'', ''Disk Drive Generations'', ''Honda Motorcycles in America'',
           ''Intel'' @ [CHR 0x27] @ ''s Pivot to Microprocessors''}"
    using matchToCaseStudies_names [of sigs] by (simp only: case_names) simp
  from a b c own_keys matchToCaseStudies_length show ?thesis
    by (intro conjI)
qed

theorem milkshake_not_in_library_witness:
  "map CaseStudyReference.name (matchToCaseStudies ['''']) =
     [''Steel Mini-Mills'', ''Disk Drive Generations'', ''Honda Motorcycles in America'',
      ''Intel'' @ [CHR 0x27] @ ''s Pivot to Microprocessors'']
   \<and> set (map CaseStudyReference.name (matchToCaseStudies ['''']))
       \<subseteq> {''Steel Mini-Mills'', ''Disk Drive Generations'', ''Honda Motorcycles in America'',
           ''Intel'' @ [CHR 0x27] @ ''s Pivot to Microprocessors''}
   \<and> length (matchToCaseStudies ['''']) \<le> 4"
proof -
  have "map CaseStudyReference.name (matchToCaseStudies ['''']) =
     [''Steel Mini-Mills'', ''Disk Drive Generations'', ''Honda Motorcycles in America'',
      ''Intel'' @ [CHR 0x27] @ ''s Pivot to Microprocessors'']"
    by code_simp
  with milkshake_not_in_library [of "['''']"] show ?thesis
    by blast
qed

section \<open>The matcher consumes a text of the pattern\<close>

lemma moved_refl: "moved st [] st"
  by (simp add: moved_def)

lemma moved_trans: "moved st m st' \<Longrightarrow> moved st' m' st'' \<Longrightarrow> moved st (m @ m') st''"
  by (simp add: moved_def)

lemma matchLit_moved:
  "st' \<in> set (matchLit w b s) \<Longrightarrow> \<exists>m. map canon m = map canon w \<and> moved (b, s) m st'"
proof (induction w b s rule: matchLit.induct)
  case (1 b s)
  then show ?case by (simp add: moved_def)
next
  case (2 c w b)
  then show ?case by simp
next
  case (3 c w b x s)
  show ?case
  proof (cases "canon x = canon c")
    case True
    with 3 obtain m where m: "map canon m = map canon w" "moved (x # b, s) m st'"
      by auto
    then have "map canon (x # m) = map canon (c # w)" "moved (b, x # s) (x # m) st'"
      using True by (simp_all add: moved_def)
    then show ?thesis by blast
  next
    case False
    with 3 show ?thesis by simp
  qed
qed

lemma star_from_moved:
  assumes step: "\<And>st st'. st' \<in> set (f st) \<Longrightarrow> \<exists>m \<in> A. moved st m st'"
  shows "st' \<in> set (star_from n f st) \<Longrightarrow> \<exists>m \<in> starL A. moved st m st'"
proof (induction n arbitrary: st)
  case 0
  then have "st' = st" by simp
  with starL_Nil [of A] moved_refl [of st] show ?case
    by blast
next
  case (Suc n)
  from Suc.prems consider "st' = st"
    | st1 where "st1 \<in> set (f st)" "st' \<in> set (star_from n f st1)"
    by (auto split: if_splits)
  then show ?case
  proof cases
    case 1
    with starL_Nil [of A] moved_refl [of st] show ?thesis
      by blast
  next
    case 2
    from step [OF 2(1)] obtain m1 where m1: "m1 \<in> A" "moved st m1 st1" by blast
    from Suc.IH [OF 2(2)] obtain m2 where m2: "m2 \<in> starL A" "moved st1 m2 st'" by blast
    from m1 m2 have "m1 @ m2 \<in> starL A" "moved st (m1 @ m2) st'"
      by (auto intro: starL_app moved_trans)
    then show ?thesis by blast
  qed
qed

lemma ends_moved: "st' \<in> set (ends r st) \<Longrightarrow> \<exists>m \<in> lang r. moved st m st'"
proof (induction r arbitrary: st st')
  case (Atom p)
  then show ?case
    by (cases st; cases "snd st") (auto simp add: moved_def split: if_splits)
next
  case (Lit w)
  then show ?case
    using matchLit_moved [of st' w "fst st" "snd st"] by auto
next
  case (Seq r1 r2)
  from Seq.prems obtain st1 where st1: "st1 \<in> set (ends r1 st)" "st' \<in> set (ends r2 st1)"
    by auto
  from Seq.IH(1) [OF st1(1)] obtain m1 where m1: "m1 \<in> lang r1" "moved st m1 st1" by blast
  from Seq.IH(2) [OF st1(2)] obtain m2 where m2: "m2 \<in> lang r2" "moved st1 m2 st'" by blast
  from m1 m2 have "m1 @ m2 \<in> lang (Seq r1 r2)" "moved st (m1 @ m2) st'"
    by (auto intro: moved_trans)
  then show ?case by blast
next
  case (Alt r1 r2)
  then show ?case by fastforce
next
  case (Opt r)
  then show ?case using moved_refl by fastforce
next
  case (Star r)
  from Star.prems have "st' \<in> set (star_from (length (snd st)) (ends r) st)"
    by simp
  from star_from_moved [of "ends r" "lang r", OF _ this] Star.IH show ?case
    by simp
next
  case WordB
  then show ?case using moved_refl by (auto split: if_splits)
next
  case (NotBehind r)
  then show ?case using moved_refl by (auto split: if_splits)
next
  case (NotAhead r)
  then show ?case using moved_refl by (auto split: if_splits)
qed

lemma matchAt_lang: "matchAt r st = Some m \<Longrightarrow> m \<in> lang r"
proof -
  assume a: "matchAt r st = Some m"
  then obtain st' rest where e: "ends r st = st' # rest"
    by (auto simp add: matchAt_def split: list.splits)
  with a have m: "m = take (length (snd st) - length (snd st')) (snd st)"
    by (simp add: matchAt_def)
  from e have "st' \<in> set (ends r st)" by simp
  from ends_moved [OF this] obtain m' where m': "m' \<in> lang r" "moved st m' st'" by blast
  from m'(2) m have "m = m'" by (simp add: moved_def)
  with m'(1) show ?thesis by simp
qed

lemma scanFrom_lang: "scanFrom r b s = Some m \<Longrightarrow> m \<in> lang r"
  by (induction r b s rule: scanFrom.induct) (auto dest: matchAt_lang split: option.splits)

lemma rx_match_lang: "rx_match t r = Some m \<Longrightarrow> m \<in> lang r"
  by (simp add: rx_match_def scanFrom_lang)

text \<open>
  The repetition never runs out of rounds: with any larger number of rounds allowed,
  \<open>star_from\<close> gives the same list.
\<close>

lemma ends_shorter: "st' \<in> set (ends r st) \<Longrightarrow> length (snd st') \<le> length (snd st)"
  using ends_moved [of st' r st] by (auto simp add: moved_def)

lemma star_from_enough:
  assumes "\<And>st st'. st' \<in> set (f st) \<Longrightarrow> length (snd st') \<le> length (snd st)"
  shows "length (snd st) \<le> n \<Longrightarrow> star_from (Suc n) f st = star_from n f st"
proof (induction n arbitrary: st)
  case 0
  then show ?case by simp
next
  case (Suc n)
  have "(if length (snd st') < length (snd st) then star_from (Suc n) f st' else []) =
        (if length (snd st') < length (snd st) then star_from n f st' else [])" for st'
    using Suc.IH [of st'] Suc.prems by auto
  then show ?case
    by (simp del: star_from.simps add: star_from.simps(2) [of "Suc n"] star_from.simps(2) [of n])
qed

lemma star_fuel_enough:
  "length (snd st) \<le> n \<Longrightarrow> star_from n (ends r) st = ends (Star r) st"
proof (induction k \<equiv> "n - length (snd st)" arbitrary: n)
  case 0
  then show ?case by simp
next
  case (Suc k)
  then obtain n' where n': "n = Suc n'" "length (snd st) \<le> n'" "k = n' - length (snd st)"
    by (cases n) auto
  from star_from_enough [of "ends r" st n'] ends_shorter n'(2)
  have "star_from (Suc n') (ends r) st = star_from n' (ends r) st"
    by blast
  with Suc.hyps(1) [OF n'(3) n'(2)] n'(1) show ?case
    by simp
qed

lemma canon_lowerUnit: "canon x = canon y \<Longrightarrow> lowerUnit x = lowerUnit y"
  by (cases x; cases y) (auto simp add: canon_Char lowerUnit_Char split: if_splits)

lemma lit_lower: "map canon m = map canon w \<Longrightarrow> toLowerCase m = toLowerCase w"
proof (induction m arbitrary: w)
  case Nil
  then show ?case by (simp add: toLowerCase_def)
next
  case (Cons x m)
  then obtain y w' where w: "w = y # w'" "canon x = canon y" "map canon m = map canon w'"
    by (cases w) auto
  with Cons.IH [of w'] canon_lowerUnit [of x y] show ?case
    by (simp add: toLowerCase_def)
qed

lemma toLowerCase_append: "toLowerCase (a @ b) = toLowerCase a @ toLowerCase b"
  by (simp add: toLowerCase_def)

lemma toLowerCase_Nil: "toLowerCase [] = []"
  by (simp add: toLowerCase_def)

lemma lang_lows: "plain r \<Longrightarrow> m \<in> lang r \<Longrightarrow> toLowerCase m \<in> set (lows r)"
proof (induction r arbitrary: m)
  case (Atom p)
  then show ?case by simp
next
  case (Lit w)
  with lit_lower [of m w] show ?case by simp
next
  case (Seq r1 r2)
  from Seq.prems(2) obtain a b where ab: "m = a @ b" "a \<in> lang r1" "b \<in> lang r2"
    by auto
  from Seq.prems(1) have p: "plain r1" "plain r2"
    by simp_all
  from Seq.IH(1) [OF p(1) ab(2)] Seq.IH(2) [OF p(2) ab(3)]
  have "toLowerCase a \<in> set (lows r1)" "toLowerCase b \<in> set (lows r2)" .
  with ab(1) show ?case
    by (auto simp add: toLowerCase_append)
next
  case (Alt r1 r2)
  then show ?case by auto
next
  case (Opt r)
  then show ?case by (auto simp add: toLowerCase_Nil)
next
  case (Star r)
  then show ?case by simp
next
  case WordB
  then show ?case by (simp add: toLowerCase_Nil)
next
  case (NotBehind r)
  then show ?case by (simp add: toLowerCase_Nil)
next
  case (NotAhead r)
  then show ?case by (simp add: toLowerCase_Nil)
qed

lemma rx_match_lows: "plain r \<Longrightarrow> rx_match t r = Some m \<Longrightarrow> toLowerCase m \<in> set (lows r)"
  using lang_lows rx_match_lang by blast

lemma dismissive_rules:
  "NEGATIVE_PATTERNS_dismissive = hd NEGATIVE_PATTERNS_dismissive # tl NEGATIVE_PATTERNS_dismissive"
  by (simp add: NEGATIVE_PATTERNS_dismissive_def)

lemma stupid_rule_lows:
  "plain (hd NEGATIVE_PATTERNS_dismissive) \<and> lows (hd NEGATIVE_PATTERNS_dismissive) = [''stupid'']"
  by code_simp

lemma other_rules_lows:
  "list_all (\<lambda>p. plain p \<and> list_all (\<lambda>w. \<not> includesStr w ''stupid'') (lows p))
            (tl NEGATIVE_PATTERNS_dismissive)"
  by code_simp

lemma stupid_rule_excerpt:
  assumes "rx_match t (hd NEGATIVE_PATTERNS_dismissive) = Some m"
  shows "toLowerCase m = ''stupid''"
  using rx_match_lows [OF _ assms] stupid_rule_lows by simp

lemma other_rules_excerpt:
  assumes "p \<in> set (tl NEGATIVE_PATTERNS_dismissive)" "rx_match t p = Some m"
  shows "\<not> includesStr (toLowerCase m) ''stupid''"
proof -
  from other_rules_lows assms(1)
  have p: "plain p" "\<forall>w \<in> set (lows p). \<not> includesStr w ''stupid''"
    unfolding list_all_iff by blast+
  from rx_match_lows [OF p(1) assms(2)] p(2) show ?thesis
    by blast
qed

lemma stupid_included: "includesStr ''stupid'' ''stupid''"
  by code_simp


lemma findMatches_other_rules:
  assumes "set ps \<subseteq> set (tl NEGATIVE_PATTERNS_dismissive)"
  shows "(findMatches t ps (Some ''dismissive'') \<noteq> []) = list_ex (\<lambda>p. rx_test p t) ps"
  using assms
proof (induction ps)
  case Nil
  show ?case by simp
next
  case (Cons p ps)
  then have p: "p \<in> set (tl NEGATIVE_PATTERNS_dismissive)" and
    ps: "set ps \<subseteq> set (tl NEGATIVE_PATTERNS_dismissive)"
    by simp_all
  show ?case
  proof (cases "rx_match t p")
    case None
    with Cons.IH [OF ps] show ?thesis
      by (simp add: rx_test_def)
  next
    case (Some m)
    with other_rules_excerpt [OF p Some] show ?thesis
      by (simp add: rx_test_def)
  qed
qed

lemma findMatches_dismissive_split:
  assumes "rs = p # qs" "p = hd NEGATIVE_PATTERNS_dismissive" "qs = tl NEGATIVE_PATTERNS_dismissive"
  shows "(findMatches t rs (Some ''dismissive'') \<noteq> []) =
           ((rx_test p t \<and> \<not> isChristensenStupidContext t) \<or> list_ex (\<lambda>q. rx_test q t) qs)"
proof -
  have others: "(findMatches t qs (Some ''dismissive'') \<noteq> []) = list_ex (\<lambda>q. rx_test q t) qs"
    using assms(3) by (intro findMatches_other_rules) simp
  show ?thesis
  proof (cases "rx_match t p")
    case None
    with others assms(1) show ?thesis
      by (simp add: rx_test_def)
  next
    case (Some m)
    from Some assms(2) stupid_rule_excerpt [of t m] stupid_included
    have "includesStr (toLowerCase m) ''stupid''"
      by simp
    with Some others assms(1) show ?thesis
      by (simp add: rx_test_def)
  qed
qed

text \<open>
  C5 (as the code has it). Of the five dismissive rules only the first, the word
  \<open>stupid\<close>, has matches that can be discarded: its match is discarded exactly when the
  whole text matches one of the two patterns of \<open>isChristensenStupidContext\<close>, wherever
  in the text that is. A match of one of the other four rules is never discarded. So the
  category triggers exactly when the \<open>stupid\<close> rule matches and neither exoneration
  pattern is present, or one of the other four rules matches.
\<close>

theorem dismissive_suppression:
  "found (dismissive (antiPatterns (calculateFidelityScore t))) =
     ((rx_test (hd NEGATIVE_PATTERNS_dismissive) t \<and> \<not> isChristensenStupidContext t)
      \<or> list_ex (\<lambda>p. rx_test p t) (tl NEGATIVE_PATTERNS_dismissive))"
  using findMatches_dismissive_split [OF dismissive_rules refl refl, of t]
  by (simp only: antiPatterns_field found_categoryResult AntiPatterns.simps)

theorem dismissive_suppression_witness:
  "rx_test (hd NEGATIVE_PATTERNS_dismissive) ''Stupid. Not that stupid, rational''
   \<and> isChristensenStupidContext ''Stupid. Not that stupid, rational''
   \<and> \<not> found (dismissive (antiPatterns
          (calculateFidelityScore ''Stupid. Not that stupid, rational'')))
   \<and> rx_test (hd NEGATIVE_PATTERNS_dismissive) ''That is stupid''
   \<and> \<not> isChristensenStupidContext ''That is stupid''
   \<and> found (dismissive (antiPatterns (calculateFidelityScore ''That is stupid'')))"
proof -
  have a: "rx_test (hd NEGATIVE_PATTERNS_dismissive) ''Stupid. Not that stupid, rational''"
    by code_simp
  have b: "isChristensenStupidContext ''Stupid. Not that stupid, rational''"
    by code_simp
  have c: "\<not> list_ex (\<lambda>p. rx_test p ''Stupid. Not that stupid, rational'')
               (tl NEGATIVE_PATTERNS_dismissive)"
    by code_simp
  have d: "rx_test (hd NEGATIVE_PATTERNS_dismissive) ''That is stupid''"
    by code_simp
  have e: "\<not> isChristensenStupidContext ''That is stupid''"
    by code_simp
  from a b c d e dismissive_suppression [of "''Stupid. Not that stupid, rational''"]
    dismissive_suppression [of "''That is stupid''"]
  show ?thesis
    by blast
qed

text \<open>
  The claim as worded fails for the other trigger tokens: with the exoneration phrase
  in the text, a match of \<open>you're wrong\<close> still makes the category trigger.
\<close>

theorem other_trigger_counterexample:
  "rx_test (last NEGATIVE_PATTERNS_dismissive)
     (''Not that stupid, rational. You'' @ [CHR 0x27] @ ''re wrong'')
   \<and> isChristensenStupidContext (''Not that stupid, rational. You'' @ [CHR 0x27] @ ''re wrong'')
   \<and> found (dismissive (antiPatterns (calculateFidelityScore
         (''Not that stupid, rational. You'' @ [CHR 0x27] @ ''re wrong''))))"
proof -
  have a: "rx_test (last NEGATIVE_PATTERNS_dismissive)
     (''Not that stupid, rational. You'' @ [CHR 0x27] @ ''re wrong'')"
    by code_simp
  have b: "isChristensenStupidContext
     (''Not that stupid, rational. You'' @ [CHR 0x27] @ ''re wrong'')"
    by code_simp
  have c: "findMatches (''Not that stupid, rational. You'' @ [CHR 0x27] @ ''re wrong'')
             NEGATIVE_PATTERNS_dismissive (Some ''dismissive'')
           = [''You'' @ [CHR 0x27] @ ''re wrong'']"
    by code_simp
  from a b c show ?thesis
    by (simp only: antiPatterns_field found_categoryResult AntiPatterns.simps) simp
qed

section \<open>The excerpts of a category\<close>

lemma fitsUnits_length: "fitsUnits w us \<Longrightarrow> length us \<le> length w"
  by (induction w us rule: fitsUnits.induct) auto

lemma fitsUnits_append: "fitsUnits w us \<Longrightarrow> fitsUnits (w @ v) us"
  by (induction w us rule: fitsUnits.induct) auto

lemma fitsUnits_append2:
  "fitsUnits w us \<Longrightarrow> length w = length us \<Longrightarrow> fitsUnits v vs \<Longrightarrow> fitsUnits (w @ v) (us @ vs)"
  by (induction w us rule: fitsUnits.induct) auto

lemma fitsUnits_Lit: "fitsUnits (map lowerUnit w) (map (\<lambda>c. Exactly (lowerUnit c)) w)"
  by (induction w) auto

lemma clashUnits_fits: "clashUnits us vs \<Longrightarrow> fitsUnits w us \<Longrightarrow> fitsUnits w vs \<Longrightarrow> False"
proof (induction us vs arbitrary: w rule: clashUnits.induct)
  case (3 u us v vs)
  then obtain c w' where w: "w = c # w'"
    by (cases w) auto
  with 3 show ?case
    by (auto split: unitShape.splits)
qed auto

lemma clash_fits: "clash s t \<Longrightarrow> fits w s \<Longrightarrow> fits w t \<Longrightarrow> False"
  using clashUnits_fits [of "fst s" "fst t" w] fitsUnits_length [of w "fst s"]
    fitsUnits_length [of w "fst t"]
  by (auto simp add: clash_def fits_def)

lemma lang_shapes: "m \<in> lang r \<Longrightarrow> \<exists>s \<in> set (shapes r). fits (toLowerCase m) s"
proof (induction r arbitrary: m)
  case (Atom p)
  then show ?case by (auto simp add: fits_def toLowerCase_def)
next
  case (Lit w)
  then have "toLowerCase m = toLowerCase w"
    using lit_lower [of m w] by simp
  with fitsUnits_Lit [of w] show ?case
    by (simp add: fits_def toLowerCase_def)
next
  case (Seq r1 r2)
  from Seq.prems obtain a b where ab: "m = a @ b" "a \<in> lang r1" "b \<in> lang r2"
    by auto
  from Seq.IH(1) [OF ab(2)] obtain s1 where s1: "s1 \<in> set (shapes r1)" "fits (toLowerCase a) s1"
    by blast
  from Seq.IH(2) [OF ab(3)] obtain s2 where s2: "s2 \<in> set (shapes r2)" "fits (toLowerCase b) s2"
    by blast
  show ?case
  proof (cases "snd s1")
    case True
    with s1 have "s1 \<in> set (shapes (Seq r1 r2))"
      by force
    moreover from s1(2) True have "fits (toLowerCase m) s1"
      by (simp add: fits_def ab(1) toLowerCase_append fitsUnits_append)
    ultimately show ?thesis by blast
  next
    case False
    with s1 s2 have "(fst s1 @ fst s2, snd s2) \<in> set (shapes (Seq r1 r2))"
      by force
    moreover from s1(2) s2(2) False have "fits (toLowerCase m) (fst s1 @ fst s2, snd s2)"
      by (auto simp add: fits_def ab(1) toLowerCase_append fitsUnits_append2)
    ultimately show ?thesis by blast
  qed
next
  case (Alt r1 r2)
  then show ?case by fastforce
next
  case (Opt r)
  then show ?case by (fastforce simp add: fits_def toLowerCase_Nil)
next
  case (Star r)
  then show ?case by (simp add: fits_def)
next
  case WordB
  then show ?case by (simp add: fits_def toLowerCase_Nil)
next
  case (NotBehind r)
  then show ?case by (simp add: fits_def toLowerCase_Nil)
next
  case (NotAhead r)
  then show ?case by (simp add: fits_def toLowerCase_Nil)
qed

lemma apart_lang: "apart p q \<Longrightarrow> m \<in> lang p \<Longrightarrow> m' \<in> lang q \<Longrightarrow> m \<noteq> m'"
proof
  assume a: "apart p q" "m \<in> lang p" "m' \<in> lang q" "m = m'"
  from lang_shapes [OF a(2)] obtain s where s: "s \<in> set (shapes p)" "fits (toLowerCase m) s"
    by blast
  from lang_shapes [OF a(3)] obtain t where t: "t \<in> set (shapes q)" "fits (toLowerCase m') t"
    by blast
  from a(1) s(1) t(1) have "clash s t"
    unfolding apart_def list_all_iff by blast
  with s(2) t(2) a(4) show False
    using clash_fits by blast
qed

lemma findMatches_None_lang:
  "m \<in> set (findMatches t ps None) \<Longrightarrow> \<exists>p \<in> set ps. m \<in> lang p"
proof (induction ps)
  case Nil
  then show ?case by simp
next
  case (Cons p ps)
  show ?case
  proof (cases "rx_match t p")
    case None
    with Cons show ?thesis by auto
  next
    case (Some m0)
    from rx_match_lang [OF Some] have "m0 \<in> lang p" .
    with Some Cons show ?thesis by auto
  qed
qed

lemma findMatches_distinct: "pairwiseApart ps \<Longrightarrow> distinct (findMatches t ps None)"
proof (induction ps)
  case Nil
  show ?case by simp
next
  case (Cons p ps)
  then have ih: "distinct (findMatches t ps None)" and ap: "list_all (apart p) ps"
    by simp_all
  show ?case
  proof (cases "rx_match t p")
    case None
    with ih show ?thesis by simp
  next
    case (Some m0)
    have "m0 \<notin> set (findMatches t ps None)"
    proof
      assume "m0 \<in> set (findMatches t ps None)"
      then obtain q where q: "q \<in> set ps" "m0 \<in> lang q"
        using findMatches_None_lang by blast
      from ap q(1) have "apart p q"
        unfolding list_all_iff by blast
      from apart_lang [OF this rx_match_lang [OF Some] q(2)] show False
        by simp
    qed
    with Some ih show ?thesis by simp
  qed
qed

lemma frameworkReference_apart: "pairwiseApart POSITIVE_PATTERNS_frameworkReference"
  by code_simp

lemma humility_apart: "pairwiseApart POSITIVE_PATTERNS_humility"
  by code_simp

text \<open>
  C8. For every text, the four should-include checks read the category results already
  computed: the story category was found; the framework category holds more than one
  excerpt; the humility category holds more than one excerpt; the JTBD-question category
  and the constraints category were both found. The excerpts of the framework category
  are pairwise different, and so are those of the humility category, so more than one
  excerpt is the same as at least two distinct excerpts. \<open>shouldIncludeScore\<close> is the
  number of checks that hold, between 0 and 4.
\<close>

theorem recommended_checks:
  "(let S = calculateFidelityScore t; bd = breakdown S;
        a = found (Breakdown.story bd);
        b = (length (matches (frameworkReference bd)) > 1);
        c = (length (matches (humility bd)) > 1);
        d = (found (jtbdQuestion bd) \<and> found (constraints bd))
    in shouldIncludeScore S = countTrue [a, b, c, d]
     \<and> 0 \<le> shouldIncludeScore S \<and> shouldIncludeScore S \<le> 4
     \<and> found (Breakdown.story bd) = (matches (Breakdown.story bd) \<noteq> [])
     \<and> found (jtbdQuestion bd) = (matches (jtbdQuestion bd) \<noteq> [])
     \<and> found (constraints bd) = (matches (constraints bd) \<noteq> [])
     \<and> distinct (matches (frameworkReference bd)) \<and> distinct (matches (humility bd))
     \<and> b = (2 \<le> card (set (matches (frameworkReference bd))))
     \<and> c = (2 \<le> card (set (matches (humility bd)))))"
proof -
  let ?bd = "breakdown (calculateFidelityScore t)"
  have jq: "found (jtbdQuestion ?bd) = (length (matches (jtbdQuestion ?bd)) > 0)"
    by (simp add: breakdown_field found_categoryResult matches_categoryResult)
  have s: "shouldIncludeScore (calculateFidelityScore t) =
     countTrue [found (Breakdown.story ?bd), length (matches (frameworkReference ?bd)) > 1,
                length (matches (humility ?bd)) > 1,
                found (jtbdQuestion ?bd) \<and> found (constraints ?bd)]"
    by (simp only: shouldInclude_field [of t] jq)
  have b: "0 \<le> shouldIncludeScore (calculateFidelityScore t)"
          "shouldIncludeScore (calculateFidelityScore t) \<le> 4"
    using countTrue_bounds [of "[found (Breakdown.story ?bd), length (matches (frameworkReference ?bd)) > 1,
                length (matches (humility ?bd)) > 1,
                found (jtbdQuestion ?bd) \<and> found (constraints ?bd)]"]
    by (simp_all only: s list.size length_Cons) simp_all
  have f: "found (Breakdown.story ?bd) = (matches (Breakdown.story ?bd) \<noteq> [])"
          "found (jtbdQuestion ?bd) = (matches (jtbdQuestion ?bd) \<noteq> [])"
          "found (constraints ?bd) = (matches (constraints ?bd) \<noteq> [])"
    by (simp_all add: breakdown_field found_categoryResult matches_categoryResult)
  have d: "distinct (matches (frameworkReference ?bd))" "distinct (matches (humility ?bd))"
    using findMatches_distinct [OF frameworkReference_apart, of t]
      findMatches_distinct [OF humility_apart, of t]
    by (simp_all add: breakdown_field matches_categoryResult)
  from d have c: "(length (matches (frameworkReference ?bd)) > 1) =
                    (2 \<le> card (set (matches (frameworkReference ?bd))))"
                 "(length (matches (humility ?bd)) > 1) =
                    (2 \<le> card (set (matches (humility ?bd))))"
    by (auto simp add: distinct_card)
  from s b f d c show ?thesis
    by (simp only: Let_def)
qed

theorem recommended_checks_witness:
  "shouldIncludeScore (calculateFidelityScore ''what job? jtbd. CPP process'') = 2"
proof -
  have "breakdown (calculateFidelityScore ''what job? jtbd. CPP process'') =
     \<lparr>frameworkReference = \<lparr>found = True, matches = [''jtbd'', ''CPP'']\<rparr>,
      jtbdQuestion = \<lparr>found = True, matches = [''what job'']\<rparr>,
      humility = \<lparr>found = False, matches = []\<rparr>,
      caseStudy = \<lparr>found = False, matches = []\<rparr>,
      constraints = \<lparr>found = True, matches = [''process'']\<rparr>,
      story = \<lparr>found = False, matches = []\<rparr>\<rparr>"
    by code_simp
  with recommended_checks [of "''what job? jtbd. CPP process''"] show ?thesis
    by (simp add: Let_def countTrue_def)
qed

end
